theory Spec2Isabelle
  imports Complex_Main
begin

section \<open>JavaScript strings\<close>

text \<open>
  A JavaScript string is a sequence of UTF-16 code units; a code unit is modelled by its
  number. \<open>lit\<close> turns a literal of the source into that sequence.
\<close>

type_synonym jsstring = "nat list"

definition lit :: "string \<Rightarrow> jsstring" where
  "lit = map of_char"

text \<open>
  The code units that \<open>String.prototype.trim\<close> and \<open>parseFloat\<close> strip: ECMAScript's
  WhiteSpace (TAB, VT, FF, ZWNBSP and the Unicode space separators) and LineTerminator
  (LF, CR, LS, PS).
\<close>

definition isWhiteSpace :: "nat \<Rightarrow> bool" where
  "isWhiteSpace c \<longleftrightarrow>
     c \<in> {9, 10, 11, 12, 13, 32, 160, 5760, 8232, 8233, 8239, 8287, 12288, 65279}
     \<or> (8192 \<le> c \<and> c \<le> 8202)"

text \<open>\<open>s.trim()\<close>: white space removed at both ends.\<close>

definition trim :: "jsstring \<Rightarrow> jsstring" where
  "trim s = rev (dropWhile isWhiteSpace (rev (dropWhile isWhiteSpace s)))"

text \<open>
  \<open>s.split(sep)\<close> for a separator of one code unit: the pieces between the occurrences of
  the separator, the empty string giving one empty piece.
\<close>

fun split :: "nat \<Rightarrow> jsstring \<Rightarrow> jsstring list" where
  "split c [] = [[]]"
| "split c (x # xs) =
     (if x = c then [] # split c xs
      else (case split c xs of [] \<Rightarrow> [[x]] | l # ls \<Rightarrow> (x # l) # ls))"

text \<open>\<open>xs.join(sep)\<close> on an array of strings.\<close>

fun join :: "jsstring \<Rightarrow> jsstring list \<Rightarrow> jsstring" where
  "join sep [] = []"
| "join sep [x] = x"
| "join sep (x # y # ys) = x @ sep @ join sep (y # ys)"

text \<open>The line feed, \<open>'\n'\<close>.\<close>

definition LF :: nat where
  "LF = 10"

text \<open>
  \<open>featuresArray\<close> of \<open>handleAddProduct\<close>:
  \<^verbatim>\<open>newProduct.features ? newProduct.features.split('\n').filter(f => f.trim() !== '') : []\<close>
\<close>

definition featuresArray :: "jsstring \<Rightarrow> jsstring list" where
  "featuresArray features =
     (if features \<noteq> [] then filter (\<lambda>f. trim f \<noteq> []) (split LF features) else [])"

text \<open>
  The specification's wording, for comparison: a line is blank when it consists of white
  space only; the feature list is the lines of the text, in order, without the blank ones.
\<close>

definition blank :: "jsstring \<Rightarrow> bool" where
  "blank l \<longleftrightarrow> list_all isWhiteSpace l"

definition spec_feature_list :: "jsstring \<Rightarrow> jsstring list" where
  "spec_feature_list text = filter (\<lambda>l. \<not> blank l) (split LF text)"

section \<open>JavaScript numbers and values\<close>

text \<open>
  A Number is a double: \<open>Num r\<close> is the finite double whose value is the rational \<open>r\<close>.
  Negative zero is identified with zero: both are falsy and both are written \<open>0\<close> by
  \<open>JSON.stringify\<close>.
\<close>

datatype jsnum = NaN | PosInfinity | NegInfinity | Num rat

text \<open>
  The Number value of a rational \<open>q\<close>, as ECMAScript defines it: the double nearest to
  \<open>q\<close>, the one with the even significand when two are equally near, and an infinity from
  \<open>2\<^sup>1\<^sup>0\<^sup>2\<^sup>4 - 2\<^sup>9\<^sup>7\<^sup>0\<close> on. The doubles around \<open>q\<close> are the multiples of \<open>2\<^sup>e\<close>, where \<open>e\<close> is
  found by halving or doubling \<open>\<bar>q\<bar>\<close> until it has 53 bits before the point, and is never less
  than -1074.
\<close>

fun scale_down :: "nat \<Rightarrow> rat \<Rightarrow> nat" where
  "scale_down n a = (if n = 0 \<or> 2 ^ 52 \<le> a then 0 else 1 + scale_down (n - 1) (2 * a))"

fun scale_up :: "nat \<Rightarrow> rat \<Rightarrow> nat" where
  "scale_up n a = (if n = 0 \<or> a < 2 ^ 53 then 0 else 1 + scale_up (n - 1) (a / 2))"

declare scale_down.simps [simp del] scale_up.simps [simp del]

definition exponent :: "rat \<Rightarrow> int" where
  "exponent a = (if a < 2 ^ 53 then - int (scale_down 1074 a) else int (scale_up 971 a))"

definition round_half_even :: "rat \<Rightarrow> int" where
  "round_half_even x =
     (let f = \<lfloor>x\<rfloor>; r = x - of_int f
      in if r < 1 / 2 then f else if 1 / 2 < r then f + 1 else if even f then f else f + 1)"

definition Number_value :: "rat \<Rightarrow> jsnum" where
  "Number_value q =
     (if 2 ^ 1024 - 2 ^ 970 \<le> \<bar>q\<bar> then (if q < 0 then NegInfinity else PosInfinity)
      else if q = 0 then Num 0
      else (let u = 2 powi exponent \<bar>q\<bar> in Num (of_int (round_half_even (q / u)) * u)))"

text \<open>
  For comparison, the doubles as IEEE 754 gives them, and what it is for a Number to be
  the rounding of a rational: an infinity from the overflow threshold on, and otherwise a
  double than which no double is nearer.
\<close>

definition is_double :: "rat \<Rightarrow> bool" where
  "is_double r \<longleftrightarrow>
     (\<exists>m e. \<bar>m\<bar> < 2 ^ 53 \<and> - 1074 \<le> e \<and> e \<le> 971 \<and> r = of_int m * 2 powi e)"

definition nearest_double :: "rat \<Rightarrow> jsnum \<Rightarrow> bool" where
  "nearest_double v n =
     (case n of
        NaN \<Rightarrow> False
      | PosInfinity \<Rightarrow> 2 ^ 1024 - 2 ^ 970 \<le> v
      | NegInfinity \<Rightarrow> v \<le> - (2 ^ 1024 - 2 ^ 970)
      | Num r \<Rightarrow> \<bar>v\<bar> < 2 ^ 1024 - 2 ^ 970 \<and> is_double r
                 \<and> (\<forall>d. is_double d \<longrightarrow> \<bar>r - v\<bar> \<le> \<bar>d - v\<bar>))"

definition isDigit :: "nat \<Rightarrow> bool" where
  "isDigit c \<longleftrightarrow> 48 \<le> c \<and> c \<le> 57"

definition digits_value :: "jsstring \<Rightarrow> nat" where
  "digits_value ds = foldl (\<lambda>acc d. 10 * acc + (d - 48)) 0 ds"

definition pow10 :: "int \<Rightarrow> rat" where
  "pow10 e = (if 0 \<le> e then 10 ^ nat e else 1 / 10 ^ nat (- e))"

text \<open>
  The exponent that an ExponentPart at the start of \<open>r\<close> denotes: \<open>e\<close> or \<open>E\<close>, an optional
  sign, and at least one digit. Where there is no such part the mantissa stands alone,
  which is the exponent 0.
\<close>

definition ExponentPart :: "jsstring \<Rightarrow> int" where
  "ExponentPart r =
     (case r of
        [] \<Rightarrow> 0
      | c # r1 \<Rightarrow>
          if c = 101 \<or> c = 69 then
            (case r1 of
               [] \<Rightarrow> 0
             | d # r2 \<Rightarrow>
                 if d = 43 then int (digits_value (takeWhile isDigit r2))
                 else if d = 45 then - int (digits_value (takeWhile isDigit r2))
                 else int (digits_value (takeWhile isDigit r1)))
          else 0)"

text \<open>
  The mathematical value of the longest prefix of \<open>u\<close> that is a StrUnsignedDecimalLiteral
  other than \<open>Infinity\<close>: digits with an optional fraction, or a dot followed by digits,
  and an optional exponent part. \<open>None\<close> when no prefix is one.
\<close>

definition StrUnsignedDecimalLiteral :: "jsstring \<Rightarrow> rat option" where
  "StrUnsignedDecimalLiteral u =
     (let ip = takeWhile isDigit u;
          r1 = dropWhile isDigit u;
          (fp, r2) = (case r1 of
                        [] \<Rightarrow> ([], r1)
                      | c # r \<Rightarrow> if c = 46 then (takeWhile isDigit r, dropWhile isDigit r)
                                 else ([], r1))
      in if ip = [] \<and> fp = [] then None
         else Some (of_nat (digits_value (ip @ fp)) / 10 ^ length fp * pow10 (ExponentPart r2)))"

text \<open>
  \<open>parseFloat(s)\<close>: leading white space is skipped, then the longest prefix that is a
  StrDecimalLiteral is read; \<open>NaN\<close> when there is none.
\<close>

definition parseFloat :: "jsstring \<Rightarrow> jsnum" where
  "parseFloat s =
     (let t = dropWhile isWhiteSpace s;
          (neg, u) = (case t of
                        [] \<Rightarrow> (False, t)
                      | c # r \<Rightarrow> if c = 45 then (True, r) else if c = 43 then (False, r)
                                 else (False, t))
      in if take 8 u = lit ''Infinity'' then (if neg then NegInfinity else PosInfinity)
         else (case StrUnsignedDecimalLiteral u of
                 None \<Rightarrow> NaN
               | Some v \<Rightarrow> Number_value (if neg then - v else v)))"

text \<open>\<open>n || 0\<close> on a number: \<open>NaN\<close> and zero are falsy.\<close>

definition or_zero :: "jsnum \<Rightarrow> jsnum" where
  "or_zero n = (if n = NaN \<or> n = Num 0 then Num 0 else n)"

text \<open>
  The values a field of the \<open>any\<close>-typed \<open>product\<close> prop is given here: absent, null, a
  number or a string.
\<close>

datatype jsval = Undefined | Null | NumV jsnum | StrV jsstring

fun truthy :: "jsval \<Rightarrow> bool" where
  "truthy Undefined = False"
| "truthy Null = False"
| "truthy (NumV n) = (n \<noteq> NaN \<and> n \<noteq> Num 0)"
| "truthy (StrV s) = (s \<noteq> [])"

fun show_nat :: "nat \<Rightarrow> jsstring" where
  "show_nat n = (if n < 10 then [48 + n] else show_nat (n div 10) @ [48 + n mod 10])"

declare show_nat.simps [simp del]

text \<open>
  Number::toString. An integer below \<open>2\<^sup>5\<^sup>3\<close> in magnitude is written with its decimal
  digits. The digits of any other finite number are the shortest that read back as the
  same double; they are not modelled and come from the parameter \<open>other\<close>.
\<close>

definition Number_toString :: "(rat \<Rightarrow> jsstring) \<Rightarrow> jsnum \<Rightarrow> jsstring" where
  "Number_toString other n =
     (case n of
        NaN \<Rightarrow> lit ''NaN''
      | PosInfinity \<Rightarrow> lit ''Infinity''
      | NegInfinity \<Rightarrow> lit ''-Infinity''
      | Num q \<Rightarrow>
          if of_int \<lfloor>q\<rfloor> = q \<and> \<bar>q\<bar> < 2 ^ 53 then
            (if q < 0 then 45 # show_nat (nat (- \<lfloor>q\<rfloor>)) else show_nat (nat \<lfloor>q\<rfloor>))
          else other q)"

text \<open>\<open>String(v)\<close>, which is also what a template literal does to an interpolated value.\<close>

fun String :: "(rat \<Rightarrow> jsstring) \<Rightarrow> jsval \<Rightarrow> jsstring" where
  "String other Undefined = lit ''undefined''"
| "String other Null = lit ''null''"
| "String other (NumV n) = Number_toString other n"
| "String other (StrV s) = s"

text \<open>\<open>x || d\<close> where \<open>x\<close> is a string or absent: the empty string is falsy.\<close>

definition or_default :: "jsstring option \<Rightarrow> jsstring \<Rightarrow> jsstring" where
  "or_default x d = (case x of None \<Rightarrow> d | Some s \<Rightarrow> if s \<noteq> [] then s else d)"

text \<open>
  The value that \<open>JSON.stringify\<close> writes, as the tree a JSON parser reads back from its
  text: a number stands for the double that its digits read back as. A number that is not
  finite is written \<open>null\<close>.
\<close>

datatype json =
    JNull
  | JBool bool
  | JNumber rat
  | JString jsstring
  | JArray "json list"
  | JObject "(string \<times> json) list"

definition JSON_number :: "jsnum \<Rightarrow> json" where
  "JSON_number n = (case n of Num q \<Rightarrow> JNumber q | _ \<Rightarrow> JNull)"

definition member :: "string \<Rightarrow> json \<Rightarrow> json option" where
  "member k j = (case j of JObject kvs \<Rightarrow> map_of kvs k | _ \<Rightarrow> None)"

section \<open>The product modal (AddProductModal)\<close>

text \<open>
  The fields of a product, shared by three objects of the source that differ in the
  types of the fields: the draft \<open>newProduct\<close> (every field a string), \<open>productData\<close> (prices
  are numbers, \<open>features\<close> an array) and the \<open>product\<close> prop.
\<close>

record ('t, 'p, 'f) product_fields =
  name :: 't
  description :: 't
  features :: 'f
  price :: 'p
  originalPrice :: 'p
  imageUrl :: 't
  category :: 't
  subCategory :: 't

type_synonym draft = "(jsstring, jsstring, jsstring) product_fields"

type_synonym productData = "(jsstring, jsnum, jsstring list) product_fields"

text \<open>
  The \<open>product\<close> prop is typed \<open>any\<close>. A text field of it is a string or absent, \<open>features\<close>
  is an array of strings or else a string or absent, the prices and the identifier are
  values.
\<close>

datatype features_field = FeatureArray "jsstring list" | FeatureText "jsstring option"

record product = "(jsstring option, jsval, features_field) product_fields" +
  product_id :: jsval

record props =
  isOpen :: bool
  product :: "product option"

datatype jsfile = File jsstring

record modal_state =
  newProduct :: draft
  isSubmitting :: bool
  isUploading :: bool
  selectedFile :: "jsfile option"
  imagePreview :: "jsstring option"

text \<open>
  What is outside the component: the environment variable of the base URL, the table
  \<open>PRODUCT_SUB_CATEGORIES\<close> of \<open>@/utils/constant\<close> (not among the sources), and the digits
  of numbers that \<open>Number_toString\<close> leaves open.
\<close>

record env =
  NEXT_PUBLIC_BASE_URL :: "jsstring option"
  PRODUCT_SUB_CATEGORIES :: "jsstring \<Rightarrow> jsstring list option"
  number_digits :: "rat \<Rightarrow> jsstring"

record request =
  url :: jsstring
  http_method :: jsstring
  headers :: "(jsstring \<times> jsstring) list"
  body :: json

text \<open>The parsed body of the save endpoint's answer.\<close>

record result =
  success :: bool
  message :: "jsstring option"

text \<open>
  What \<open>await fetch(...)\<close> followed by \<open>await response.json()\<close> comes to: either of them
  throws, or there is a parsed answer.
\<close>

datatype fetch_outcome = Threw | Replied result

text \<open>What a handler does to the world outside the component's state, in order.\<close>

datatype effect =
    PreventDefault
  | ToastError jsstring
  | ToastSuccess jsstring
  | ConsoleError jsstring
  | Fetch request
  | OnClose
  | OnSuccess
  | ReadAsDataURL jsfile

definition requests :: "effect list \<Rightarrow> request list" where
  "requests es = concat (map (\<lambda>e. case e of Fetch r \<Rightarrow> [r] | _ \<Rightarrow> []) es)"

definition empty_draft :: draft where
  "empty_draft =
     \<lparr>name = [], description = [], features = [], price = [], originalPrice = [],
      imageUrl = [], category = [], subCategory = []\<rparr>"

definition handleReset :: "modal_state \<Rightarrow> modal_state" where
  "handleReset s =
     s\<lparr>newProduct := empty_draft, selectedFile := None, imagePreview := None,
       isUploading := False\<rparr>"

definition handleClose :: "modal_state \<Rightarrow> modal_state \<times> effect list" where
  "handleClose s = (handleReset s, [OnClose])"

text \<open>
  The effect that runs when \<open>product\<close> or \<open>isOpen\<close> changes: the draft is filled from the
  product, or reset when there is none.
\<close>

definition useEffect_product :: "env \<Rightarrow> props \<Rightarrow> modal_state \<Rightarrow> modal_state" where
  "useEffect_product ev ps s =
     (case product ps of
        Some p \<Rightarrow>
          s\<lparr>newProduct :=
              \<lparr>name = or_default (name p) [],
               description = or_default (description p) [],
               features = (case features p of
                             FeatureArray fs \<Rightarrow> join [LF] fs
                           | FeatureText t \<Rightarrow> or_default t []),
               price = or_default (Some (String (number_digits ev) (price p))) [],
               originalPrice = or_default (Some (String (number_digits ev) (originalPrice p))) [],
               imageUrl = or_default (imageUrl p) [],
               category = or_default (category p) [],
               subCategory = or_default (subCategory p) []\<rparr>,
            imagePreview :=
              (if or_default (imageUrl p) [] \<noteq> [] then imageUrl p else imagePreview s)\<rparr>
      | None \<Rightarrow> handleReset s)"

text \<open>
  \<open>handleFileChange\<close>, with \<open>e.target.files?.[0]\<close> as an option. The preview is set later,
  when the reader has finished (\<open>onloadend\<close>).
\<close>

definition handleFileChange ::
  "props \<Rightarrow> jsfile option \<Rightarrow> modal_state \<Rightarrow> modal_state \<times> effect list" where
  "handleFileChange ps e s =
     (case e of
        None \<Rightarrow> (s, [])
      | Some f \<Rightarrow>
          (let s1 = s\<lparr>selectedFile := Some f\<rparr>
           in (if product ps = None
               then s1\<lparr>newProduct := (newProduct s1)\<lparr>imageUrl := []\<rparr>\<rparr>
               else s1,
               [ReadAsDataURL f])))"

definition onloadend :: "jsstring option \<Rightarrow> modal_state \<Rightarrow> modal_state" where
  "onloadend res s = s\<lparr>imagePreview := res\<rparr>"

text \<open>The object \<open>productData\<close> and its serialisation.\<close>

definition productData :: "draft \<Rightarrow> productData" where
  "productData d =
     \<lparr>name = name d, description = description d,
      features = featuresArray (features d),
      price = or_zero (parseFloat (price d)),
      originalPrice = or_zero (parseFloat (originalPrice d)),
      imageUrl = imageUrl d, category = category d, subCategory = subCategory d\<rparr>"

definition JSON_stringify :: "productData \<Rightarrow> json" where
  "JSON_stringify pd =
     JObject
       [(''name'', JString (name pd)),
        (''description'', JString (description pd)),
        (''features'', JArray (map JString (features pd))),
        (''price'', JSON_number (price pd)),
        (''originalPrice'', JSON_number (originalPrice pd)),
        (''imageUrl'', JString (imageUrl pd)),
        (''category'', JString (category pd)),
        (''subCategory'', JString (subCategory pd))]"

text \<open>\<open>!!product?.id\<close>\<close>

definition isEditing :: "props \<Rightarrow> bool" where
  "isEditing ps = (case product ps of None \<Rightarrow> False | Some p \<Rightarrow> truthy (product_id p))"

definition base_url :: "env \<Rightarrow> jsstring" where
  "base_url ev = (case NEXT_PUBLIC_BASE_URL ev of None \<Rightarrow> lit ''undefined'' | Some b \<Rightarrow> b)"

text \<open>
  The target of the save request. \<open>product.id\<close> is read only when \<open>isEditing\<close> holds, and
  then there is a product.
\<close>

definition save_url :: "env \<Rightarrow> props \<Rightarrow> jsstring" where
  "save_url ev ps =
     (if isEditing ps
      then base_url ev @ lit ''/api/products/''
           @ (case product ps of
                Some p \<Rightarrow> String (number_digits ev) (product_id p)
              | None \<Rightarrow> [])
      else base_url ev @ lit ''/api/products'')"

definition save_request :: "env \<Rightarrow> props \<Rightarrow> draft \<Rightarrow> request" where
  "save_request ev ps d =
     \<lparr>url = save_url ev ps,
      http_method = (if isEditing ps then lit ''PUT'' else lit ''POST''),
      headers = [(lit ''Content-Type'', lit ''application/json'')],
      body = JSON_stringify (productData d)\<rparr>"

text \<open>
  \<open>handleAddProduct\<close>, the submit handler. \<open>server\<close> gives the outcome of the one request.
  The state returned is the one after the handler has run to its end; while the request
  is under way \<open>isSubmitting\<close> is true.
\<close>

definition handleAddProduct ::
  "env \<Rightarrow> (request \<Rightarrow> fetch_outcome) \<Rightarrow> props \<Rightarrow> modal_state \<Rightarrow> modal_state \<times> effect list" where
  "handleAddProduct ev server ps s =
     (if imageUrl (newProduct s) = [] then
        (s, [PreventDefault, ToastError (lit ''Please upload an image for the product'')])
      else
        (let req = save_request ev ps (newProduct s) in
         case server req of
           Replied res \<Rightarrow>
             if success res then
               (let (s1, closing) = handleClose s in
                (s1\<lparr>isSubmitting := False\<rparr>,
                 [PreventDefault, Fetch req,
                  ToastSuccess (or_default (message res)
                    (lit ''Product '' @ (if isEditing ps then lit ''updated'' else lit ''added'')
                     @ lit '' successfully''))]
                 @ closing @ [OnSuccess]))
             else
               (s\<lparr>isSubmitting := False\<rparr>,
                [PreventDefault, Fetch req,
                 ToastError (or_default (message res)
                   (lit ''Failed to '' @ (if isEditing ps then lit ''update'' else lit ''add'')
                    @ lit '' product''))])
         | Threw \<Rightarrow>
             (s\<lparr>isSubmitting := False\<rparr>,
              [PreventDefault, Fetch req, ConsoleError (lit ''Error saving product:''),
               ToastError (lit ''Failed to save product'')])))"

text \<open>
  The \<open>onChange\<close> handlers of the form fields; each writes \<open>{...newProduct, field: val}\<close>,
  the one of the category also \<open>subCategory: ''\<close>.
\<close>

datatype field_change =
    ChangeName jsstring
  | ChangeCategory jsstring
  | ChangeSubCategory jsstring
  | ChangePrice jsstring
  | ChangeOriginalPrice jsstring
  | ChangeDescription jsstring
  | ChangeFeatures jsstring

fun onChange :: "field_change \<Rightarrow> draft \<Rightarrow> draft" where
  "onChange (ChangeName val) d = d\<lparr>name := val\<rparr>"
| "onChange (ChangeCategory val) d = d\<lparr>category := val, subCategory := []\<rparr>"
| "onChange (ChangeSubCategory val) d = d\<lparr>subCategory := val\<rparr>"
| "onChange (ChangePrice val) d = d\<lparr>price := val\<rparr>"
| "onChange (ChangeOriginalPrice val) d = d\<lparr>originalPrice := val\<rparr>"
| "onChange (ChangeDescription val) d = d\<lparr>description := val\<rparr>"
| "onChange (ChangeFeatures val) d = d\<lparr>features := val\<rparr>"

text \<open>The options of the sub-category dropdown.\<close>

definition subCategoryOptions :: "env \<Rightarrow> draft \<Rightarrow> jsstring list" where
  "subCategoryOptions ev d =
     (if category d \<noteq> [] then
        (case PRODUCT_SUB_CATEGORIES ev (category d) of Some opts \<Rightarrow> opts | None \<Rightarrow> [])
      else [])"

text \<open>
  The invariant of the draft: a chosen sub-category is one of the options of the chosen
  category.
\<close>

definition subCategory_ok :: "env \<Rightarrow> draft \<Rightarrow> bool" where
  "subCategory_ok ev d \<longleftrightarrow> subCategory d = [] \<or> subCategory d \<in> set (subCategoryOptions ev d)"

text \<open>What the requests of a handler's run carry under the key \<open>k\<close> of their bodies.\<close>

definition sent :: "string \<Rightarrow> modal_state \<times> effect list \<Rightarrow> json option list" where
  "sent k out = map (\<lambda>r. member k (body r)) (requests (snd out))"

text \<open>The method and the target of each request of a handler's run.\<close>

definition targets :: "modal_state \<times> effect list \<Rightarrow> (jsstring \<times> jsstring) list" where
  "targets out = map (\<lambda>r. (http_method r, url r)) (requests (snd out))"

text \<open>The error notifications of a handler's run.\<close>

definition error_toasts :: "modal_state \<times> effect list \<Rightarrow> jsstring list" where
  "error_toasts out = concat (map (\<lambda>e. case e of ToastError m \<Rightarrow> [m] | _ \<Rightarrow> []) (snd out))"

text \<open>
  The specification's words about prices, for comparison. A decimal string is an
  optional sign, digits, and optionally a dot with further digits, as in \<open>1500.00\<close>; it
  denotes the integer part plus the fraction.
\<close>

definition unsigned_part :: "jsstring \<Rightarrow> jsstring" where
  "unsigned_part s = (case s of [] \<Rightarrow> [] | c # r \<Rightarrow> if c = 45 \<or> c = 43 then r else s)"

definition decimal_string :: "jsstring \<Rightarrow> bool" where
  "decimal_string s =
     (let u = unsigned_part s
      in takeWhile isDigit u \<noteq> [] \<and>
         (case dropWhile isDigit u of
            [] \<Rightarrow> True
          | c # fp \<Rightarrow> c = 46 \<and> fp \<noteq> [] \<and> list_all isDigit fp))"

definition decimal_value :: "jsstring \<Rightarrow> rat" where
  "decimal_value s =
     (let u = unsigned_part s;
          ip = takeWhile isDigit u;
          fp = tl (dropWhile isDigit u);
          v = of_nat (digits_value ip) + of_nat (digits_value fp) / 10 ^ length fp
      in if take 1 s = [45] then - v else v)"

text \<open>
  A string from which \<open>parseFloat\<close> reads a number begins, after white space and an
  optional sign, with a digit, with a dot and a digit, or with \<open>Infinity\<close>.
\<close>

definition begins_number :: "jsstring \<Rightarrow> bool" where
  "begins_number s =
     (let u = unsigned_part (dropWhile isWhiteSpace s)
      in take 8 u = lit ''Infinity'' \<or>
         (case u of
            [] \<Rightarrow> False
          | c # r \<Rightarrow> isDigit c \<or> (c = 46 \<and> (case r of [] \<Rightarrow> False | d # _ \<Rightarrow> isDigit d))))"

text \<open>Values for the examples.\<close>

definition example_env :: env where
  "example_env =
     \<lparr>NEXT_PUBLIC_BASE_URL = Some (lit ''https://shop.test''),
      PRODUCT_SUB_CATEGORIES =
        [lit ''Paintings'' \<mapsto> [lit ''Oil'', lit ''Acrylic''], lit ''Sculpture'' \<mapsto> [lit ''Bronze'']],
      number_digits = (\<lambda>q. lit ''?'')\<rparr>"

definition example_draft :: draft where
  "example_draft =
     \<lparr>name = lit ''Vase'', description = lit ''Blue vase'',
      features = lit ''Tall'' @ [LF] @ lit ''  '' @ [LF] @ lit ''Glazed'',
      price = lit ''1500.00'', originalPrice = lit ''12abc'',
      imageUrl = lit ''https://img.test/vase.png'',
      category = lit ''Paintings'', subCategory = lit ''Oil''\<rparr>"

definition example_state :: modal_state where
  "example_state =
     \<lparr>newProduct = example_draft, isSubmitting = False, isUploading = False,
      selectedFile = None, imagePreview = None\<rparr>"

definition example_product :: "jsval \<Rightarrow> product" where
  "example_product i =
     \<lparr>name = Some (lit ''Vase''), description = None, features = FeatureText None,
      price = Undefined, originalPrice = Undefined,
      imageUrl = Some (lit ''https://img.test/vase.png''),
      category = Some (lit ''Paintings''), subCategory = None, product_id = i\<rparr>"

definition accepting :: "request \<Rightarrow> fetch_outcome" where
  "accepting r = Replied \<lparr>success = True, message = None\<rparr>"

definition refusing :: "jsstring option \<Rightarrow> request \<Rightarrow> fetch_outcome" where
  "refusing m r = Replied \<lparr>success = False, message = m\<rparr>"

section \<open>The upload adapter (uploadToCloudinary)\<close>

record upload_options =
  folder :: jsstring
  resource_type :: jsstring

text \<open>
  \<open>CloudinaryUploadResult\<close>; the further keys of the provider's answer are the extension
  of the record.
\<close>

record CloudinaryUploadResult =
  secure_url :: jsstring
  public_id :: jsstring

datatype 'e rejection = ProviderError 'e | Error jsstring

datatype ('e, 'r) promise = Resolved 'r | Rejected "'e rejection"

text \<open>The callback given to \<open>upload_stream\<close>; an absent argument is \<open>None\<close>.\<close>

definition upload_stream_callback :: "'e option \<Rightarrow> 'r option \<Rightarrow> ('e, 'r) promise" where
  "upload_stream_callback error res =
     (case error of
        Some e \<Rightarrow> Rejected (ProviderError e)
      | None \<Rightarrow>
          (case res of
             None \<Rightarrow> Rejected (Error (lit ''Cloudinary upload failed: No result returned''))
           | Some r \<Rightarrow> Resolved r))"

text \<open>
  \<open>uploadToCloudinary\<close>. The provider's \<open>upload_stream\<close>, fed the buffer, calls the callback
  once with an error and a result; the promise is settled by that call.
\<close>

definition stream_options :: "jsstring option \<Rightarrow> upload_options" where
  "stream_options fld =
     \<lparr>folder = (case fld of None \<Rightarrow> lit ''products'' | Some f \<Rightarrow> f),
      resource_type = lit ''auto''\<rparr>"

definition uploadToCloudinary ::
  "(upload_options \<Rightarrow> nat list \<Rightarrow> 'e option \<times> 'm CloudinaryUploadResult_scheme option)
   \<Rightarrow> nat list \<Rightarrow> jsstring option \<Rightarrow> ('e, 'm CloudinaryUploadResult_scheme) promise" where
  "uploadToCloudinary upload_stream fileBuffer fld =
     (let (error, res) = upload_stream (stream_options fld) fileBuffer
      in upload_stream_callback error res)"

text \<open>A provider for the examples: it answers every upload with the same pair.\<close>

definition answering ::
  "jsstring option \<times> CloudinaryUploadResult option \<Rightarrow> upload_options \<Rightarrow> nat list
   \<Rightarrow> jsstring option \<times> CloudinaryUploadResult option" where
  "answering a opts buf = a"

definition example_upload :: CloudinaryUploadResult where
  "example_upload =
     \<lparr>secure_url = lit ''https://cdn.test/products/vase.png'', public_id = lit ''products/vase''\<rparr>"

section \<open>The newsletter page (NewsletterPage)\<close>

record Newsletter =
  newsletter_id :: nat
  email :: jsstring
  createdAt :: jsstring
  updatedAt :: jsstring

record NewsletterPagination =
  currentPage :: nat
  itemsPerPage :: nat
  hasMore :: bool
  offset :: nat
  total :: nat

text \<open>The query of one request of \<open>fetchNewsletters\<close>.\<close>

record list_fetch =
  page :: nat
  limit :: nat
  search :: jsstring

text \<open>
  The parsed body of the list endpoint's answer, \<open>success\<close> and \<open>message\<close> as in the answer
  of the save endpoint, and what the two awaits of \<open>fetchNewsletters\<close> come to.
\<close>

record list_result = result +
  data :: "Newsletter list"
  result_pagination :: "NewsletterPagination option"

datatype list_outcome = ListThrew | ListReplied list_result

text \<open>
  A pending \<open>setTimeout\<close>: the time in milliseconds from which it may run, and what the
  closure of its callback \<open>() => fetchNewsletters(1, searchQuery)\<close> has captured from the
  render in which the effect ran: \<open>searchQuery\<close>, and the \<open>pagination\<close> that
  \<open>fetchNewsletters\<close> reads.
\<close>

record timeout =
  due :: nat
  captured_searchQuery :: jsstring
  captured_pagination :: NewsletterPagination

text \<open>
  The state of the page, with the time, the requests issued so far, and the error
  notifications and console errors so far.
\<close>

record newsletter_state =
  emails :: "Newsletter list"
  loading :: bool
  searchQuery :: jsstring
  pagination :: NewsletterPagination
  delayDebounceFn :: "timeout option"
  clock :: nat
  fetched :: "list_fetch list"
  toasts :: "jsstring list"
  console :: "jsstring list"

text \<open>
  \<open>fetchNewsletters(page, search)\<close> up to its first \<open>await\<close>: \<open>setLoading(true)\<close> and the
  request, whose limit is the \<open>itemsPerPage\<close> of the pagination the function has closed
  over.
\<close>

definition fetchNewsletters ::
  "NewsletterPagination \<Rightarrow> nat \<Rightarrow> jsstring \<Rightarrow> newsletter_state \<Rightarrow> newsletter_state" where
  "fetchNewsletters pag p q s =
     s\<lparr>loading := True,
       fetched := fetched s @ [\<lparr>page = p, limit = itemsPerPage pag, search = q\<rparr>]\<rparr>"

text \<open>
  The rest of \<open>fetchNewsletters\<close>, which runs when the answer has come: the list and the
  pagination are replaced after a success, an error is notified otherwise, and loading
  ends.
\<close>

definition fetchNewsletters_resume :: "list_outcome \<Rightarrow> newsletter_state \<Rightarrow> newsletter_state" where
  "fetchNewsletters_resume outcome s =
     (case outcome of
        ListReplied res \<Rightarrow>
          if success res then
            s\<lparr>emails := data res,
              pagination := (case result_pagination res of Some pg \<Rightarrow> pg | None \<Rightarrow> pagination s),
              loading := False\<rparr>
          else
            s\<lparr>toasts := toasts s @ [or_default (message res) (lit ''Failed to fetch newsletters'')],
              loading := False\<rparr>
      | ListThrew \<Rightarrow>
          s\<lparr>console := console s @ [lit ''Error fetching newsletters:''],
            toasts := toasts s @ [lit ''Failed to fetch newsletters''], loading := False\<rparr>)"

text \<open>
  Time passes until \<open>t\<close>: a timeout that is due by then runs its callback,
  \<open>fetchNewsletters(1, searchQuery)\<close> with the values of its closure.
\<close>

definition elapse :: "nat \<Rightarrow> newsletter_state \<Rightarrow> newsletter_state" where
  "elapse t s =
     (case delayDebounceFn s of
        None \<Rightarrow> s\<lparr>clock := t\<rparr>
      | Some tm \<Rightarrow>
          if due tm \<le> t
          then fetchNewsletters (captured_pagination tm) 1 (captured_searchQuery tm)
                 (s\<lparr>delayDebounceFn := None, clock := t\<rparr>)
          else s\<lparr>clock := t\<rparr>)"

text \<open>
  The effect on \<open>searchQuery\<close>: its cleanup clears the timeout of the run before, and the
  body sets a new one, 500 ms from now.
\<close>

definition useEffect_searchQuery :: "newsletter_state \<Rightarrow> newsletter_state" where
  "useEffect_searchQuery s =
     s\<lparr>delayDebounceFn :=
         Some \<lparr>due = clock s + 500, captured_searchQuery = searchQuery s,
               captured_pagination = pagination s\<rparr>\<rparr>"

text \<open>
  The search box's \<open>onChange\<close> at time \<open>t\<close>: \<open>setSearchQuery(e.target.value)\<close>. The effect
  runs again only when the value has changed.
\<close>

definition setSearchQuery :: "nat \<Rightarrow> jsstring \<Rightarrow> newsletter_state \<Rightarrow> newsletter_state" where
  "setSearchQuery t v s =
     (let s1 = elapse t s
      in if v = searchQuery s1 then s1 else useEffect_searchQuery (s1\<lparr>searchQuery := v\<rparr>))"

definition handlePageChange :: "nat \<Rightarrow> nat \<Rightarrow> newsletter_state \<Rightarrow> newsletter_state" where
  "handlePageChange t p s =
     (let s1 = elapse t s in fetchNewsletters (pagination s1) p (searchQuery s1) s1)"

text \<open>
  What happens to the page while the user types: a keystroke in the search box, with the
  text of the box after it, or the answer to a request issued earlier.
\<close>

datatype event = Keystroke jsstring | Answer list_outcome

fun occur :: "nat \<times> event \<Rightarrow> newsletter_state \<Rightarrow> newsletter_state" where
  "occur (t, Keystroke v) s = setSearchQuery t v s"
| "occur (t, Answer outcome) s = fetchNewsletters_resume outcome (elapse t s)"

fun run :: "(nat \<times> event) list \<Rightarrow> newsletter_state \<Rightarrow> newsletter_state" where
  "run [] s = s"
| "run (e # es) s = run es (occur e s)"

text \<open>The texts of the keystrokes among the events, in order.\<close>

fun typed :: "(nat \<times> event) list \<Rightarrow> jsstring list" where
  "typed [] = []"
| "typed ((t, Keystroke v) # es) = v # typed es"
| "typed ((t, Answer outcome) # es) = typed es"

text \<open>
  Each text differs from the one before it, \<open>q\<close> being the text at the start. React calls
  \<open>onChange\<close> only for a keystroke that changes the text of the box.
\<close>

fun changing :: "jsstring \<Rightarrow> jsstring list \<Rightarrow> bool" where
  "changing q [] = True"
| "changing q (v # vs) = (v \<noteq> q \<and> changing v vs)"

text \<open>
  The events of a burst of typing: every keystroke comes less than 500 ms after the
  keystroke before it, the last one at time \<open>d - 500\<close>, and the answers come in between.
\<close>

fun quiet :: "nat \<Rightarrow> (nat \<times> event) list \<Rightarrow> bool" where
  "quiet d [] = True"
| "quiet d ((t, Keystroke v) # es) = (t < d \<and> quiet (t + 500) es)"
| "quiet d ((t, Answer outcome) # es) = (t < d \<and> quiet d es)"

text \<open>The page when it has mounted at time \<open>t\<close>: the effect has run once.\<close>

definition mounted :: "nat \<Rightarrow> newsletter_state" where
  "mounted t =
     useEffect_searchQuery
       \<lparr>emails = [], loading = True, searchQuery = [],
        pagination = \<lparr>currentPage = 1, itemsPerPage = 10, hasMore = False, offset = 0, total = 0\<rparr>,
        delayDebounceFn = None, clock = t, fetched = [], toasts = [], console = []\<rparr>"

text \<open>An answer for the examples: an empty page of a list shown 25 at a time.\<close>

definition example_answer :: list_outcome where
  "example_answer =
     ListReplied
       \<lparr>success = True, message = None, data = [],
        result_pagination =
          Some \<lparr>currentPage = 1, itemsPerPage = 25, hasMore = False, offset = 0, total = 0\<rparr>\<rparr>"

section \<open>Properties of the string operations\<close>

lemma all_dropWhile: "(\<forall>x \<in> set (dropWhile P s). P x) \<longleftrightarrow> (\<forall>x \<in> set s. P x)"
  by (induction s) auto

lemma trim_nil_iff: "trim s = [] \<longleftrightarrow> blank s"
  by (simp add: trim_def blank_def list_all_iff all_dropWhile)

lemma split_not_nil: "split c s \<noteq> []"
  by (induction s) (auto split: list.splits)

lemma split_no_sep: "c \<notin> set s \<Longrightarrow> split c s = [s]"
  by (induction s) auto

lemma split_append_sep:
  "c \<notin> set l \<Longrightarrow> split c (l @ c # rest) = l # split c rest"
  by (induction l) auto

lemma split_pieces_no_sep: "l \<in> set (split c s) \<Longrightarrow> c \<notin> set l"
proof (induction s arbitrary: l)
  case Nil
  then show ?case by simp
next
  case (Cons x xs)
  show ?case
  proof (cases "x = c")
    case True
    with Cons show ?thesis by auto
  next
    case False
    obtain p ps where sp: "split c xs = p # ps"
      using split_not_nil [of c xs] by (cases "split c xs") auto
    with False Cons.prems have "l = x # p \<or> l \<in> set ps" by simp
    then show ?thesis
    proof
      assume "l = x # p"
      moreover have "c \<notin> set p" using Cons.IH [of p] sp by simp
      ultimately show ?thesis using False by auto
    next
      assume "l \<in> set ps"
      then show ?thesis using Cons.IH [of l] sp by simp
    qed
  qed
qed

lemma split_join:
  "ls \<noteq> [] \<Longrightarrow> \<forall>l \<in> set ls. c \<notin> set l \<Longrightarrow> split c (join [c] ls) = ls"
proof (induction ls rule: induct_list012)
  case 1
  then show ?case by simp
next
  case (2 x)
  then show ?case by (simp add: split_no_sep)
next
  case (3 x y ys)
  then show ?case by (simp add: split_append_sep)
qed

lemma join_nil_iff: "join sep ls = [] \<longleftrightarrow> (\<forall>l \<in> set ls. l = []) \<and> (sep = [] \<or> length ls \<le> 1)"
  by (induction sep ls rule: join.induct) auto

lemma featuresArray_spec: "featuresArray s = spec_feature_list s"
  by (cases s) (simp_all add: featuresArray_def spec_feature_list_def trim_nil_iff blank_def)

lemma featuresArray_rejoin: "featuresArray (join [LF] (featuresArray s)) = featuresArray s"
proof (cases "featuresArray s = []")
  case True
  then show ?thesis by (simp add: featuresArray_def)
next
  case False
  let ?fs = "featuresArray s"
  have sub: "set ?fs \<subseteq> set (split LF s)"
    by (auto simp: featuresArray_def)
  have nosep: "\<forall>l \<in> set ?fs. LF \<notin> set l"
    using sub split_pieces_no_sep by blast
  have keep: "\<forall>l \<in> set ?fs. trim l \<noteq> []"
    by (auto simp: featuresArray_def)
  have resplit: "split LF (join [LF] ?fs) = ?fs"
    using split_join [OF False nosep] .
  have "\<not> (\<forall>l \<in> set ?fs. l = [])"
    using False keep by (cases ?fs) (auto simp: trim_def)
  then have nonempty: "join [LF] ?fs \<noteq> []"
    by (simp add: join_nil_iff)
  have "filter (\<lambda>f. trim f \<noteq> []) ?fs = ?fs"
    using keep by (simp add: filter_id_conv)
  then show ?thesis
    using resplit nonempty by (simp add: featuresArray_def [of "join [LF] ?fs"])
qed

section \<open>What a submit sends\<close>

lemma requests_simps:
  "requests [] = []"
  "requests (Fetch r # es) = r # requests es"
  "requests (PreventDefault # es) = requests es"
  "requests (ToastError m # es) = requests es"
  "requests (ToastSuccess m # es) = requests es"
  "requests (ConsoleError m # es) = requests es"
  "requests (OnClose # es) = requests es"
  "requests (OnSuccess # es) = requests es"
  "requests (ReadAsDataURL f # es) = requests es"
  by (simp_all add: requests_def)

lemma requests_handleAddProduct:
  "requests (snd (handleAddProduct ev server ps s)) =
     (if imageUrl (newProduct s) = [] then [] else [save_request ev ps (newProduct s)])"
  by (simp add: handleAddProduct_def handleClose_def Let_def requests_simps
      split: fetch_outcome.splits)

lemma sent_handleAddProduct:
  "imageUrl (newProduct s) \<noteq> [] \<Longrightarrow>
   sent k (handleAddProduct ev server ps s) =
     [member k (JSON_stringify (productData (newProduct s)))]"
  by (simp add: sent_def requests_handleAddProduct save_request_def)

text \<open>
  C1. A submit of a draft whose \<open>imageUrl\<close> is the empty string issues no request, shows
  the validation message, and leaves the whole state of the modal, the draft included, as
  it was.
\<close>

theorem submit_without_image:
  assumes "imageUrl (newProduct s) = []"
  shows "requests (snd (handleAddProduct ev server ps s)) = []
       \<and> error_toasts (handleAddProduct ev server ps s) =
           [lit ''Please upload an image for the product'']
       \<and> fst (handleAddProduct ev server ps s) = s"
  using assms by (simp add: handleAddProduct_def requests_simps error_toasts_def)

theorem submit_without_image_witness:
  "imageUrl (newProduct (example_state\<lparr>newProduct := empty_draft\<rparr>)) = []
   \<and> requests (snd (handleAddProduct example_env accepting \<lparr>isOpen = True, product = None\<rparr>
        (example_state\<lparr>newProduct := empty_draft\<rparr>))) = []
   \<and> error_toasts (handleAddProduct example_env accepting \<lparr>isOpen = True, product = None\<rparr>
        (example_state\<lparr>newProduct := empty_draft\<rparr>)) =
        [lit ''Please upload an image for the product'']
   \<and> fst (handleAddProduct example_env accepting \<lparr>isOpen = True, product = None\<rparr>
        (example_state\<lparr>newProduct := empty_draft\<rparr>)) = example_state\<lparr>newProduct := empty_draft\<rparr>"
proof -
  have h: "imageUrl (newProduct (example_state\<lparr>newProduct := empty_draft\<rparr>)) = []"
    by (simp add: empty_draft_def)
  show ?thesis
    using h submit_without_image
      [OF h, of example_env accepting "\<lparr>isOpen = True, product = None\<rparr>"]
    by simp
qed

lemma targets_handleAddProduct:
  "imageUrl (newProduct s) \<noteq> [] \<Longrightarrow>
   targets (handleAddProduct ev server ps s) =
     [(if isEditing ps then lit ''PUT'' else lit ''POST'', save_url ev ps)]"
  by (simp add: targets_def requests_handleAddProduct save_request_def)

lemma example_image: "imageUrl (newProduct example_state) \<noteq> []"
  by (simp add: example_state_def example_draft_def lit_def)

lemma example_base: "base_url example_env = lit ''https://shop.test''"
  by (simp add: base_url_def example_env_def)

lemma example_features:
  "spec_feature_list (features example_draft) = [lit ''Tall'', lit ''Glazed'']"
  by (simp add: spec_feature_list_def example_draft_def blank_def lit_def LF_def isWhiteSpace_def)

text \<open>
  C2. The feature list that a submit sends is the text of the features field split at
  line feeds, without the lines that are blank (white space only), in the order of the
  text. Joining the list with line feeds and splitting it in the same way gives the same
  list again.
\<close>

theorem submitted_features:
  assumes "imageUrl (newProduct s) \<noteq> []"
  shows "sent ''features'' (handleAddProduct ev server ps s) =
           [Some (JArray (map JString (spec_feature_list (features (newProduct s)))))]
       \<and> featuresArray (join [LF] (featuresArray text)) = featuresArray text"
  using assms
  by (simp add: sent_handleAddProduct JSON_stringify_def member_def productData_def
      featuresArray_spec [symmetric] featuresArray_rejoin)

theorem submitted_features_witness:
  "imageUrl (newProduct example_state) \<noteq> []
   \<and> sent ''features''
       (handleAddProduct example_env accepting \<lparr>isOpen = True, product = None\<rparr> example_state) =
       [Some (JArray [JString (lit ''Tall''), JString (lit ''Glazed'')])]"
proof -
  have f: "features (newProduct example_state) = features example_draft"
    by (simp add: example_state_def)
  show ?thesis
    using example_image
      submitted_features
        [OF example_image, of example_env accepting "\<lparr>isOpen = True, product = None\<rparr>"]
    by (simp add: f example_features)
qed

text \<open>
  C5, as amended. A submit that sends a request sends one. When the product of the
  workflow has a truthy identifier (a number other than zero and \<open>NaN\<close>, or a string that
  is not empty), it is a \<open>PUT\<close> to \<open>/api/products/{id}\<close>. When there is no product, or its
  identifier is absent or falsy, it is a \<open>POST\<close> to \<open>/api/products\<close>.
\<close>

theorem save_method_and_target:
  assumes "imageUrl (newProduct s) \<noteq> []"
  shows "(\<forall>p. product ps = Some p \<and> truthy (product_id p) \<longrightarrow>
            targets (handleAddProduct ev server ps s) =
              [(lit ''PUT'',
                base_url ev @ lit ''/api/products/'' @ String (number_digits ev) (product_id p))])
       \<and> (product ps = None \<or> (\<exists>p. product ps = Some p \<and> \<not> truthy (product_id p)) \<longrightarrow>
            targets (handleAddProduct ev server ps s) =
              [(lit ''POST'', base_url ev @ lit ''/api/products'')])"
  using assms by (auto simp: targets_handleAddProduct isEditing_def save_url_def)

theorem save_method_and_target_witness:
  "imageUrl (newProduct example_state) \<noteq> []
 \<and> truthy (product_id (example_product (NumV (Num 42))))
 \<and> targets (handleAddProduct example_env accepting
      \<lparr>isOpen = True, product = Some (example_product (NumV (Num 42)))\<rparr> example_state) =
      [(lit ''PUT'', lit ''https://shop.test/api/products/42'')]
 \<and> targets (handleAddProduct example_env accepting \<lparr>isOpen = True, product = None\<rparr>
      example_state) = [(lit ''POST'', lit ''https://shop.test/api/products'')]"
  using example_image
    save_method_and_target [OF example_image, of
      "\<lparr>isOpen = True, product = Some (example_product (NumV (Num 42)))\<rparr>" example_env accepting]
    save_method_and_target [OF example_image, of
      "\<lparr>isOpen = True, product = None\<rparr>" example_env accepting]
  by (simp add: example_base example_product_def Number_toString_def show_nat.simps lit_def)

text \<open>
  The claim C5 as it was stated fails for a product whose identifier is 0: the workflow
  was opened with an existing product that carries an identifier, and the request is a
  \<open>POST\<close> to the collection.
\<close>

theorem zero_identifier_counterexample:
  "product_id (example_product (NumV (Num 0))) = NumV (Num 0)
 \<and> targets (handleAddProduct example_env accepting
      \<lparr>isOpen = True, product = Some (example_product (NumV (Num 0)))\<rparr> example_state) =
      [(lit ''POST'', lit ''https://shop.test/api/products'')]
 \<and> targets (handleAddProduct example_env accepting
      \<lparr>isOpen = True, product = Some (example_product (NumV (Num 0)))\<rparr> example_state) \<noteq>
      [(lit ''PUT'', lit ''https://shop.test/api/products/0'')]"
  by (simp add: targets_handleAddProduct example_image isEditing_def save_url_def example_base
      example_product_def lit_def)

section \<open>Selecting a file\<close>

text \<open>
  C7. When a file is selected and no product was supplied (create mode), the draft's
  \<open>imageUrl\<close> becomes the empty string, whatever it was. When a product was supplied (edit
  mode), \<open>imageUrl\<close> stays as it is.
\<close>

theorem file_selection_clears_image:
  "(product ps = None \<longrightarrow> imageUrl (newProduct (fst (handleFileChange ps (Some f) s))) = [])
 \<and> (product ps \<noteq> None \<longrightarrow>
      imageUrl (newProduct (fst (handleFileChange ps (Some f) s))) = imageUrl (newProduct s))"
  by (simp add: handleFileChange_def Let_def)

theorem file_selection_clears_image_witness:
  "product \<lparr>isOpen = True, product = None\<rparr> = None
   \<and> imageUrl (newProduct (fst (handleFileChange \<lparr>isOpen = True, product = None\<rparr>
         (Some (File (lit ''new.png''))) example_state))) = []
   \<and> product \<lparr>isOpen = True, product = Some (example_product (NumV (Num 42)))\<rparr> \<noteq> None
   \<and> imageUrl (newProduct (fst (handleFileChange
         \<lparr>isOpen = True, product = Some (example_product (NumV (Num 42)))\<rparr>
         (Some (File (lit ''new.png''))) example_state))) = imageUrl (newProduct example_state)"
  using file_selection_clears_image
      [of "\<lparr>isOpen = True, product = None\<rparr>" "File (lit ''new.png'')" example_state]
    file_selection_clears_image
      [of "\<lparr>isOpen = True, product = Some (example_product (NumV (Num 42)))\<rparr>"
          "File (lit ''new.png'')" example_state]
  by simp

section \<open>Category and sub-category\<close>

lemma subCategoryOptions_cong:
  "category d' = category d \<Longrightarrow> subCategoryOptions ev d' = subCategoryOptions ev d"
  by (simp add: subCategoryOptions_def)

lemma subCategory_ok_cong:
  "category d' = category d \<Longrightarrow> subCategory d' = subCategory d \<Longrightarrow>
   subCategory_ok ev d' = subCategory_ok ev d"
  using subCategoryOptions_cong [of d' d ev] by (simp add: subCategory_ok_def)

lemma subCategory_ok_choice:
  "v \<in> set (subCategoryOptions ev d) \<Longrightarrow> subCategory_ok ev (d\<lparr>subCategory := v\<rparr>)"
proof -
  assume v: "v \<in> set (subCategoryOptions ev d)"
  have "subCategoryOptions ev (d\<lparr>subCategory := v\<rparr>) = subCategoryOptions ev d"
    by (rule subCategoryOptions_cong) simp
  with v show ?thesis by (simp add: subCategory_ok_def)
qed

lemma example_options:
  "subCategoryOptions example_env example_draft = [lit ''Oil'', lit ''Acrylic'']"
  by (simp add: subCategoryOptions_def example_env_def example_draft_def lit_def)

text \<open>
  C8. Every change of the category sets the category to the new value and the
  sub-category to the empty string, whatever the two were. The invariant of the draft, that
  a chosen sub-category is among the options of the chosen category, is kept by every edit
  of a field, a sub-category being chosen among the options that the dropdown offers.
\<close>

theorem category_change_resets_subCategory:
  "category (onChange (ChangeCategory val) d) = val
 \<and> subCategory (onChange (ChangeCategory val) d) = []
 \<and> (subCategory_ok ev d \<longrightarrow>
      (\<forall>v. c = ChangeSubCategory v \<longrightarrow> v \<in> set (subCategoryOptions ev d)) \<longrightarrow>
      subCategory_ok ev (onChange c d))"
proof -
  have "subCategory_ok ev (onChange c d)"
    if ok: "subCategory_ok ev d"
      and offered: "\<forall>v. c = ChangeSubCategory v \<longrightarrow> v \<in> set (subCategoryOptions ev d)"
  proof (cases c)
    case (ChangeCategory v)
    then show ?thesis by (simp add: subCategory_ok_def)
  next
    case (ChangeSubCategory v)
    with offered show ?thesis by (simp add: subCategory_ok_choice)
  next
    case (ChangeName v)
    with ok show ?thesis by (simp add: subCategory_ok_cong [of "d\<lparr>name := v\<rparr>" d])
  next
    case (ChangePrice v)
    with ok show ?thesis by (simp add: subCategory_ok_cong [of "d\<lparr>price := v\<rparr>" d])
  next
    case (ChangeOriginalPrice v)
    with ok show ?thesis by (simp add: subCategory_ok_cong [of "d\<lparr>originalPrice := v\<rparr>" d])
  next
    case (ChangeDescription v)
    with ok show ?thesis by (simp add: subCategory_ok_cong [of "d\<lparr>description := v\<rparr>" d])
  next
    case (ChangeFeatures v)
    with ok show ?thesis by (simp add: subCategory_ok_cong [of "d\<lparr>features := v\<rparr>" d])
  qed
  then show ?thesis by simp
qed

theorem category_change_resets_subCategory_witness:
  "subCategory_ok example_env example_draft
   \<and> lit ''Acrylic'' \<in> set (subCategoryOptions example_env example_draft)
   \<and> subCategory_ok example_env (onChange (ChangeSubCategory (lit ''Acrylic'')) example_draft)
   \<and> category (onChange (ChangeCategory (lit ''Sculpture'')) example_draft) = lit ''Sculpture''
   \<and> subCategory (onChange (ChangeCategory (lit ''Sculpture'')) example_draft) = []"
proof -
  have ok: "subCategory_ok example_env example_draft"
    by (simp add: subCategory_ok_def example_options) (simp add: example_draft_def)
  have offered: "lit ''Acrylic'' \<in> set (subCategoryOptions example_env example_draft)"
    by (simp add: example_options)
  show ?thesis
    using ok offered
      category_change_resets_subCategory
        [of "lit ''Sculpture''" example_draft example_env "ChangeSubCategory (lit ''Acrylic'')"]
    by simp
qed

section \<open>The upload adapter's promise\<close>

text \<open>
  C4, as amended. The promise of \<open>uploadToCloudinary\<close> is rejected in two cases: with the
  provider's error when the provider reports one, and, when it reports neither an error
  nor a result, with an error whose message is
  \<open>Cloudinary upload failed: No result returned\<close>. In the remaining case, a result and no
  error, it is resolved with the provider's result, a record with the secure URL and the
  public identifier.
\<close>

theorem upload_settles:
  "(\<forall>e. fst (upload_stream (stream_options fld) buf) = Some e \<longrightarrow>
        uploadToCloudinary upload_stream buf fld = Rejected (ProviderError e))
 \<and> (upload_stream (stream_options fld) buf = (None, None) \<longrightarrow>
        uploadToCloudinary upload_stream buf fld =
          Rejected (Error (lit ''Cloudinary upload failed: No result returned'')))
 \<and> (\<forall>r. upload_stream (stream_options fld) buf = (None, Some r) \<longrightarrow>
        uploadToCloudinary upload_stream buf fld = Resolved r)"
  by (auto simp: uploadToCloudinary_def upload_stream_callback_def split: prod.splits)

theorem upload_settles_witness:
  "uploadToCloudinary (answering (Some (lit ''Invalid API key''), None)) [255, 216] None =
     Rejected (ProviderError (lit ''Invalid API key''))
 \<and> uploadToCloudinary (answering (None, None)) [255, 216] None =
     Rejected (Error (lit ''Cloudinary upload failed: No result returned''))
 \<and> uploadToCloudinary (answering (None, Some example_upload)) [255, 216] None =
     Resolved example_upload"
  using upload_settles [of "answering (Some (lit ''Invalid API key''), None)" None "[255, 216]"]
    upload_settles [of "answering (None, None)" None "[255, 216]"]
    upload_settles [of "answering (None, Some example_upload)" None "[255, 216]"]
  by (simp add: answering_def)

text \<open>
  The claim C4 as it was stated names the message \<open>upload failed: no result returned\<close>;
  the promise is not rejected with that message.
\<close>

theorem upload_message_counterexample:
  "uploadToCloudinary (answering (None, None)) [255, 216] None \<noteq>
     Rejected (Error (lit ''upload failed: no result returned''))"
  by (simp add: uploadToCloudinary_def upload_stream_callback_def answering_def lit_def)

section \<open>Rounding to a double\<close>

lemma floor_rat_numeral: "\<lfloor>numeral a / numeral b :: rat\<rfloor> = numeral a div numeral b"
  by (metis floor_divide_of_int_eq of_int_numeral)

lemma floor_rat_neg_numeral: "\<lfloor>- (numeral a / numeral b) :: rat\<rfloor> = - numeral a div numeral b"
  by (metis divide_minus_left floor_divide_of_int_eq of_int_neg_numeral of_int_numeral)

lemmas round_defs = Number_value_def exponent_def round_half_even_def scale_down.simps scale_up.simps Let_def
  floor_rat_numeral floor_rat_neg_numeral

lemma scale_down_le: "scale_down n a \<le> n"
proof (induction n a rule: scale_down.induct)
  case (1 n a)
  show ?case
  proof (cases "n = 0 \<or> 2 ^ 52 \<le> a")
    case True
    then show ?thesis by (simp add: scale_down.simps [of n a])
  next
    case False
    with 1 have "scale_down (n - 1) (2 * a) \<le> n - 1" by simp
    moreover have "scale_down n a = 1 + scale_down (n - 1) (2 * a)"
      using False by (simp add: scale_down.simps [of n a])
    moreover have "0 < n" using False by simp
    ultimately show ?thesis by arith
  qed
qed

lemma scale_down_upper: "a < 2 ^ 53 \<Longrightarrow> a * 2 ^ scale_down n a < 2 ^ 53"
proof (induction n a rule: scale_down.induct)
  case (1 n a)
  show ?case
  proof (cases "n = 0 \<or> 2 ^ 52 \<le> a")
    case True
    with 1(2) show ?thesis by (simp add: scale_down.simps [of n a])
  next
    case False
    then have "2 * a < 2 ^ 53" by simp
    with 1(1) False have "2 * a * 2 ^ scale_down (n - 1) (2 * a) < 2 ^ 53" by simp
    with False show ?thesis by (simp add: scale_down.simps [of n a] mult_ac)
  qed
qed

lemma scale_down_lower: "scale_down n a < n \<Longrightarrow> 2 ^ 52 \<le> a * 2 ^ scale_down n a"
proof (induction n a rule: scale_down.induct)
  case (1 n a)
  show ?case
  proof (cases "n = 0 \<or> 2 ^ 52 \<le> a")
    case True
    with 1(2) show ?thesis by (auto simp: scale_down.simps [of n a])
  next
    case False
    have "scale_down n a = 1 + scale_down (n - 1) (2 * a)"
      using False by (simp add: scale_down.simps [of n a])
    with 1(2) have "scale_down (n - 1) (2 * a) < n - 1"
      by arith
    with 1(1) False have "2 ^ 52 \<le> 2 * a * 2 ^ scale_down (n - 1) (2 * a)" by simp
    with False show ?thesis by (simp add: scale_down.simps [of n a] mult_ac)
  qed
qed

lemma scale_up_le: "scale_up n a \<le> n"
proof (induction n a rule: scale_up.induct)
  case (1 n a)
  show ?case
  proof (cases "n = 0 \<or> a < 2 ^ 53")
    case True
    then show ?thesis by (simp add: scale_up.simps [of n a])
  next
    case False
    with 1 have "scale_up (n - 1) (a / 2) \<le> n - 1" by simp
    moreover have "scale_up n a = 1 + scale_up (n - 1) (a / 2)"
      using False by (simp add: scale_up.simps [of n a])
    moreover have "0 < n" using False by simp
    ultimately show ?thesis by arith
  qed
qed

lemma scale_up_upper: "a < 2 ^ 53 * 2 ^ n \<Longrightarrow> a < 2 ^ 53 * 2 ^ scale_up n a"
proof (induction n a rule: scale_up.induct)
  case (1 n a)
  show ?case
  proof (cases "n = 0 \<or> a < 2 ^ 53")
    case True
    with 1(2) show ?thesis by (auto simp: scale_up.simps [of n a])
  next
    case False
    then obtain k where n: "n = Suc k" by (cases n) auto
    from 1(2) n have "a / 2 < 2 ^ 53 * 2 ^ (n - 1)" by simp
    with 1(1) False have "a / 2 < 2 ^ 53 * 2 ^ scale_up (n - 1) (a / 2)" by simp
    with False show ?thesis by (simp add: scale_up.simps [of n a])
  qed
qed

lemma scale_up_lower: "2 ^ 53 \<le> a \<Longrightarrow> 0 < n \<Longrightarrow> 2 ^ 52 * 2 ^ scale_up n a \<le> a"
proof (induction n a rule: scale_up.induct)
  case (1 n a)
  from 1(2,3) have step: "\<not> (n = 0 \<or> a < 2 ^ 53)" by simp
  show ?case
  proof (cases "n - 1 = 0 \<or> a / 2 < 2 ^ 53")
    case True
    then have "scale_up (n - 1) (a / 2) = 0"
      by (subst scale_up.simps) (simp only: if_True)
    with step 1(2) show ?thesis by (simp add: scale_up.simps [of n a])
  next
    case False
    with 1(1) [OF step] have "2 ^ 52 * 2 ^ scale_up (n - 1) (a / 2) \<le> a / 2" by simp
    with step show ?thesis by (simp add: scale_up.simps [of n a])
  qed
qed

lemma exponent_range:
  assumes "a < 2 ^ 1024"
  shows "- 1074 \<le> exponent a \<and> exponent a \<le> 971"
  using scale_down_le [of 1074 a] scale_up_le [of 971 a] by (simp add: exponent_def)

lemma exponent_upper:
  assumes "a < 2 ^ 1024"
  shows "a < 2 powi (exponent a + 53)"
proof (cases "a < 2 ^ 53")
  case True
  have "a * 2 ^ scale_down 1074 a < 2 ^ 53"
    using True by (rule scale_down_upper)
  then have "a < 2 ^ 53 / 2 ^ scale_down 1074 a"
    by (simp add: pos_less_divide_eq)
  also have "\<dots> = 2 powi (53 - int (scale_down 1074 a))"
    by (simp add: power_int_diff)
  finally show ?thesis using True by (simp add: exponent_def)
next
  case False
  have "a < 2 ^ 53 * 2 ^ 971" using assms by simp
  then have "a < 2 ^ 53 * 2 ^ scale_up 971 a" by (rule scale_up_upper)
  also have "\<dots> = 2 powi (int (scale_up 971 a) + 53)"
    by (simp add: power_int_add)
  finally show ?thesis using False by (simp add: exponent_def)
qed

lemma exponent_lower:
  assumes "- 1074 < exponent a"
  shows "2 powi (exponent a + 52) \<le> a"
proof (cases "a < 2 ^ 53")
  case True
  with assms have "scale_down 1074 a < 1074" by (simp add: exponent_def)
  then have "2 ^ 52 \<le> a * 2 ^ scale_down 1074 a" by (rule scale_down_lower)
  then have "2 ^ 52 / 2 ^ scale_down 1074 a \<le> a"
    by (simp add: pos_divide_le_eq)
  moreover have "2 ^ 52 / 2 ^ scale_down 1074 a = (2 :: rat) powi (52 - int (scale_down 1074 a))"
    by (simp add: power_int_diff)
  ultimately show ?thesis using True by (simp add: exponent_def)
next
  case False
  then have "2 ^ 52 * 2 ^ scale_up 971 a \<le> a" by (intro scale_up_lower) simp_all
  moreover have "2 ^ 52 * 2 ^ scale_up 971 a = (2 :: rat) powi (int (scale_up 971 a) + 52)"
    by (simp add: power_int_add)
  ultimately show ?thesis using False by (simp add: exponent_def)
qed

lemma round_half_even_cases:
  "round_half_even x = \<lfloor>x\<rfloor> \<and> x - of_int \<lfloor>x\<rfloor> \<le> 1 / 2
   \<or> round_half_even x = \<lfloor>x\<rfloor> + 1 \<and> 1 / 2 \<le> x - of_int \<lfloor>x\<rfloor>"
  by (auto simp: round_half_even_def Let_def)

lemma round_half_even_nearest:
  "\<bar>of_int (round_half_even x) - x\<bar> \<le> \<bar>of_int k - x\<bar>"
proof -
  let ?f = "\<lfloor>x\<rfloor>"
  have fl: "of_int ?f \<le> x" "x < of_int ?f + 1"
    by linarith+
  have "k \<le> ?f \<or> ?f + 1 \<le> k" by linarith
  then have k: "(of_int k :: rat) \<le> of_int ?f \<or> (of_int ?f :: rat) + 1 \<le> of_int k"
  proof
    assume "k \<le> ?f"
    then have "(of_int k :: rat) \<le> of_int ?f" by (simp only: of_int_le_iff)
    then show ?thesis ..
  next
    assume "?f + 1 \<le> k"
    then have "(of_int (?f + 1) :: rat) \<le> of_int k" by (simp only: of_int_le_iff)
    then show ?thesis by simp
  qed
  from round_half_even_cases [of x] show ?thesis
  proof
    assume "round_half_even x = ?f \<and> x - of_int ?f \<le> 1 / 2"
    with fl k show ?thesis by auto
  next
    assume "round_half_even x = ?f + 1 \<and> 1 / 2 \<le> x - of_int ?f"
    with fl k show ?thesis by auto
  qed
qed

lemma round_half_even_le: "x \<le> of_int n \<Longrightarrow> round_half_even x \<le> n"
proof -
  assume x: "x \<le> of_int n"
  have "\<bar>of_int (round_half_even x) - x\<bar> \<le> \<bar>of_int n - x\<bar>"
    by (rule round_half_even_nearest)
  with x have "(of_int (round_half_even x) :: rat) \<le> of_int n + (of_int n - x) " by linarith
  show ?thesis
  proof (rule ccontr)
    assume "\<not> round_half_even x \<le> n"
    then have "n + 1 \<le> round_half_even x" by simp
    then have "(of_int (n + 1) :: rat) \<le> of_int (round_half_even x)" by (simp only: of_int_le_iff)
    then have g: "(of_int n :: rat) + 1 \<le> of_int (round_half_even x)" by simp
    from round_half_even_cases [of x] have "(of_int (round_half_even x) :: rat) \<le> of_int \<lfloor>x\<rfloor> + 1"
      by auto
    with g have "(of_int n :: rat) \<le> of_int \<lfloor>x\<rfloor>" by linarith
    then have "n \<le> \<lfloor>x\<rfloor>" by (simp only: of_int_le_iff)
    with x have xn: "x = of_int n" by (simp add: le_floor_iff)
    then have "round_half_even x = n" by (simp add: round_half_even_def)
    with \<open>\<not> round_half_even x \<le> n\<close> show False by simp
  qed
qed

lemma round_half_even_ge: "of_int n \<le> x \<Longrightarrow> n \<le> round_half_even x"
proof -
  assume "of_int n \<le> x"
  then have "n \<le> \<lfloor>x\<rfloor>" by (simp add: le_floor_iff)
  with round_half_even_cases [of x] show ?thesis by auto
qed

lemma double_grid:
  assumes "is_double d"
  shows "(\<exists>k. d = of_int k * 2 powi e) \<or> (- 1074 < e \<and> \<bar>d\<bar> < 2 powi (e + 52))"
proof -
  from assms obtain m e' where m: "\<bar>m\<bar> < 2 ^ 53" and e': "- 1074 \<le> e'" "e' \<le> 971"
    and d: "d = of_int m * 2 powi e'"
    by (auto simp: is_double_def)
  show ?thesis
  proof (cases "e \<le> e'")
    case True
    have "(2 :: rat) powi e' = 2 powi (e' - e) * 2 powi e"
      by (simp flip: power_int_add)
    also have "(2 :: rat) powi (e' - e) = of_int (2 ^ nat (e' - e))"
      using True by (simp add: power_int_def)
    finally have "d = of_int (m * 2 ^ nat (e' - e)) * 2 powi e"
      using d by simp
    then show ?thesis by blast
  next
    case False
    have "\<bar>d\<bar> = of_int \<bar>m\<bar> * 2 powi e'"
      using d by (simp add: abs_mult)
    also have "\<dots> < 2 ^ 53 * 2 powi e'"
    proof -
      have "(of_int \<bar>m\<bar> :: rat) < of_int (2 ^ 53)" using m by (simp only: of_int_less_iff)
      then show ?thesis by simp
    qed
    also have "\<dots> = 2 powi (e' + 53)"
      by (simp add: power_int_add)
    also have "\<dots> \<le> 2 powi (e + 52)"
      using False by (intro power_int_increasing) simp_all
    finally show ?thesis using False e' by simp
  qed
qed

lemma Number_value_finite:
  assumes q0: "q \<noteq> 0" and lim: "\<bar>q\<bar> < 2 ^ 1024 - 2 ^ 970"
  defines "u \<equiv> 2 powi exponent \<bar>q\<bar>"
  defines "r \<equiv> of_int (round_half_even (q / u)) * u"
  shows "is_double r \<and> (\<forall>d. is_double d \<longrightarrow> \<bar>r - q\<bar> \<le> \<bar>d - q\<bar>)"
proof -
  define e where "e = exponent \<bar>q\<bar>"
  define x where "x = q / u"
  define m where "m = round_half_even x"
  have u: "u = 2 powi e" by (simp add: u_def e_def)
  have upos: "0 < u" by (simp add: u)
  have r: "r = of_int m * u" by (simp add: r_def m_def x_def)
  have q: "q = x * u" using upos by (simp add: x_def)
  have a: "\<bar>q\<bar> = \<bar>x\<bar> * u" using upos by (simp add: q abs_mult)
  have big: "\<bar>q\<bar> < 2 ^ 1024" using lim by simp
  have range: "- 1074 \<le> e" "e \<le> 971"
    using exponent_range [OF big] by (simp_all add: e_def)
  have "\<bar>q\<bar> < 2 powi (e + 53)"
    using exponent_upper [OF big] by (simp add: e_def)
  also have "\<dots> = 2 ^ 53 * u" by (simp add: u power_int_add)
  finally have xu: "\<bar>x\<bar> < 2 ^ 53" using upos by (simp add: a)
  have low: "2 ^ 52 \<le> \<bar>x\<bar>" if "- 1074 < e"
  proof -
    have "2 powi (e + 52) \<le> \<bar>q\<bar>"
      using that exponent_lower [of "\<bar>q\<bar>"] by (simp add: e_def)
    moreover have "(2 :: rat) powi (e + 52) = 2 ^ 52 * u" by (simp add: u power_int_add)
    ultimately show ?thesis using upos by (simp add: a)
  qed
  have dist: "\<bar>r - q\<bar> = \<bar>of_int m - x\<bar> * u"
  proof -
    have "r - q = (of_int m - x) * u" by (simp add: r q algebra_simps)
    then show ?thesis using upos by (simp add: abs_mult)
  qed
  have near: "\<bar>r - q\<bar> \<le> \<bar>d - q\<bar>" if d: "is_double d" for d
  proof -
    from double_grid [OF d, of e]
    show ?thesis
    proof
      assume "\<exists>k. d = of_int k * 2 powi e"
      then obtain k where k: "d = of_int k * u" by (auto simp: u)
      have "d - q = (of_int k - x) * u" by (simp add: k q algebra_simps)
      then have "\<bar>d - q\<bar> = \<bar>of_int k - x\<bar> * u" using upos by (simp add: abs_mult)
      moreover have "\<bar>of_int m - x\<bar> \<le> \<bar>of_int k - x\<bar>"
        unfolding m_def by (rule round_half_even_nearest)
      ultimately show ?thesis using upos by (simp add: dist)
    next
      assume far: "- 1074 < e \<and> \<bar>d\<bar> < 2 powi (e + 52)"
      then have x52: "2 ^ 52 \<le> \<bar>x\<bar>" using low by simp
      have du: "\<bar>d\<bar> < 2 ^ 52 * u" using far by (simp add: u power_int_add)
      define k :: int where "k = (if 0 \<le> x then 2 ^ 52 else - (2 ^ 52))"
      have "\<bar>of_int k - x\<bar> = \<bar>x\<bar> - 2 ^ 52"
        using x52 by (auto simp: k_def)
      moreover have "\<bar>of_int m - x\<bar> \<le> \<bar>of_int k - x\<bar>"
        unfolding m_def by (rule round_half_even_nearest)
      ultimately have "\<bar>of_int m - x\<bar> * u \<le> (\<bar>x\<bar> - 2 ^ 52) * u"
        using upos by simp
      also have "\<dots> = \<bar>q\<bar> - 2 ^ 52 * u" by (simp add: a algebra_simps)
      also have "\<dots> \<le> \<bar>q\<bar> - \<bar>d\<bar>" using du by simp
      also have "\<dots> \<le> \<bar>d - q\<bar>" by simp
      finally show ?thesis by (simp add: dist)
    qed
  qed
  have mb: "- (2 ^ 53) \<le> m" "m \<le> 2 ^ 53"
  proof -
    have "(of_int (- (2 ^ 53)) :: rat) \<le> x" using xu by simp
    then show "- (2 ^ 53) \<le> m" unfolding m_def by (rule round_half_even_ge)
    have "x \<le> (of_int (2 ^ 53) :: rat)" using xu by simp
    then show "m \<le> 2 ^ 53" unfolding m_def by (rule round_half_even_le)
  qed
  have dbl: "is_double r"
  proof (cases "\<bar>m\<bar> < 2 ^ 53")
    case True
    with range r u show ?thesis by (auto simp: is_double_def)
  next
    case False
    with mb have m53: "\<bar>m\<bar> = 2 ^ 53" by simp
    have fl: "of_int \<lfloor>x\<rfloor> \<le> x" "x < of_int \<lfloor>x\<rfloor> + 1"
      by linarith+
    have half: "\<bar>of_int m - x\<bar> \<le> 1 / 2"
    proof -
      from round_half_even_cases [of x] show ?thesis
      proof (elim disjE conjE)
        assume "round_half_even x = \<lfloor>x\<rfloor>" "x - of_int \<lfloor>x\<rfloor> \<le> 1 / 2"
        then have "of_int m = (of_int \<lfloor>x\<rfloor> :: rat)" "x - of_int \<lfloor>x\<rfloor> \<le> 1 / 2"
          by (simp_all add: m_def)
        with fl show ?thesis by linarith
      next
        assume "round_half_even x = \<lfloor>x\<rfloor> + 1" "1 / 2 \<le> x - of_int \<lfloor>x\<rfloor>"
        then have "of_int m = (of_int \<lfloor>x\<rfloor> :: rat) + 1" "1 / 2 \<le> x - of_int \<lfloor>x\<rfloor>"
          by (simp_all add: m_def)
        with fl show ?thesis by linarith
      qed
    qed
    have "(of_int \<bar>m\<bar> :: rat) = 2 ^ 53" by (simp only: m53) simp
    then have am: "\<bar>of_int m :: rat\<bar> = 2 ^ 53" by simp
    with half have xl: "2 ^ 53 - 1 / 2 \<le> \<bar>x\<bar>" by linarith
    have "e \<noteq> 971"
    proof
      assume "e = 971"
      then have "u = 2 ^ 971" by (simp add: u)
      with xl have "(2 ^ 53 - 1 / 2) * 2 ^ 971 \<le> \<bar>q\<bar>" by (simp add: a)
      moreover have "(2 ^ 53 - 1 / 2) * 2 ^ 971 = (2 :: rat) ^ 1024 - 2 ^ 970" by simp
      ultimately show False using lim by simp
    qed
    with range have e970: "e + 1 \<le> 971" "- 1074 \<le> e + 1" by simp_all
    define h :: int where "h = (if 0 \<le> m then 2 ^ 52 else - (2 ^ 52))"
    have mh: "m = 2 * h" using m53 by (auto simp: h_def)
    have hb: "\<bar>h\<bar> < 2 ^ 53" by (simp add: h_def)
    have "(of_int m :: rat) = 2 * of_int h"
      by (simp only: mh of_int_mult of_int_numeral)
    then have "r = of_int h * 2 powi (e + 1)"
      by (simp add: r u power_int_add)
    with hb e970 have "\<bar>h\<bar> < 2 ^ 53 \<and> - 1074 \<le> e + 1 \<and> e + 1 \<le> 971
        \<and> r = of_int h * 2 powi (e + 1)"
      by simp
    then show ?thesis unfolding is_double_def by blast
  qed
  from dbl near show ?thesis by blast
qed

lemma is_double_0: "is_double 0"
proof -
  have "\<bar>0 :: int\<bar> < 2 ^ 53 \<and> - 1074 \<le> (0 :: int) \<and> (0 :: int) \<le> 971
      \<and> (0 :: rat) = of_int 0 * 2 powi 0"
    by simp
  then show ?thesis unfolding is_double_def by blast
qed

lemma is_double_bound:
  assumes "is_double v"
  shows "\<bar>v\<bar> < 2 ^ 1024 - 2 ^ 970"
proof -
  from assms obtain m e where m: "\<bar>m\<bar> < 2 ^ 53" and e: "e \<le> 971"
    and v: "v = of_int m * 2 powi e"
    by (auto simp: is_double_def)
  have "\<bar>m\<bar> \<le> 2 ^ 53 - 1" using m by simp
  then have "(of_int \<bar>m\<bar> :: rat) \<le> of_int (2 ^ 53 - 1)" by (simp only: of_int_le_iff)
  then have mm: "\<bar>of_int m :: rat\<bar> \<le> 2 ^ 53 - 1" by simp
  have "(2 :: rat) powi e \<le> 2 powi 971"
    using e by (intro power_int_increasing) simp_all
  then have ee: "(2 :: rat) powi e \<le> 2 ^ 971" by simp
  have "\<bar>v\<bar> = \<bar>of_int m :: rat\<bar> * 2 powi e" by (simp add: v abs_mult)
  also have "\<dots> \<le> (2 ^ 53 - 1) * 2 ^ 971"
    using mm ee by (intro mult_mono) simp_all
  also have "\<dots> < (2 :: rat) ^ 1024 - 2 ^ 970" by simp
  finally show ?thesis .
qed

lemma Number_value_nearest: "nearest_double q (Number_value q)"
proof (cases "2 ^ 1024 - 2 ^ 970 \<le> \<bar>q\<bar>")
  case True
  then show ?thesis by (auto simp: Number_value_def nearest_double_def)
next
  case False
  then have lim: "\<bar>q\<bar> < 2 ^ 1024 - 2 ^ 970" by simp
  show ?thesis
  proof (cases "q = 0")
    case True
    then show ?thesis by (simp add: Number_value_def nearest_double_def is_double_0)
  next
    case False
    from Number_value_finite [OF False lim] lim False show ?thesis
      by (simp add: Number_value_def nearest_double_def Let_def)
  qed
qed

lemma Number_value_exact:
  assumes "is_double v"
  shows "Number_value v = Num v"
proof -
  have lim: "\<bar>v\<bar> < 2 ^ 1024 - 2 ^ 970" using assms by (rule is_double_bound)
  from Number_value_nearest [of v] lim obtain r where r: "Number_value v = Num r"
    and near: "\<forall>d. is_double d \<longrightarrow> \<bar>r - v\<bar> \<le> \<bar>d - v\<bar>"
    by (cases "Number_value v") (auto simp: nearest_double_def)
  from near assms have "\<bar>r - v\<bar> \<le> \<bar>v - v\<bar>" by blast
  then have "r = v" by simp
  with r show ?thesis by simp
qed

section \<open>Prices\<close>

lemmas parse_defs = parseFloat_def StrUnsignedDecimalLiteral_def ExponentPart_def
  digits_value_def pow10_def isWhiteSpace_def isDigit_def lit_def round_defs

lemma parseFloat_undefined: "parseFloat (lit ''undefined'') = NaN"
  by (simp add: parse_defs)

lemma sign_split:
  "(case t of
      [] \<Rightarrow> (False, t)
    | c # r \<Rightarrow> if c = 45 then (True, r) else if c = 43 then (False, r) else (False, t)) =
   (take 1 t = [45], unsigned_part t)"
  by (cases t) (simp_all add: unsigned_part_def)

lemma parseFloat_unsigned:
  "parseFloat s =
     (let t = dropWhile isWhiteSpace s; u = unsigned_part t
      in if take 8 u = lit ''Infinity'' then (if take 1 t = [45] then NegInfinity else PosInfinity)
         else (case StrUnsignedDecimalLiteral u of
                 None \<Rightarrow> NaN
               | Some v \<Rightarrow> Number_value (if take 1 t = [45] then - v else v)))"
  unfolding parseFloat_def sign_split Let_def prod.case by (rule refl)

lemma StrUnsignedDecimalLiteral_parts:
  assumes "takeWhile isDigit u = ip" and "dropWhile isDigit u = r1"
  shows "StrUnsignedDecimalLiteral u =
     (let (fp, r2) = (case r1 of
                        [] \<Rightarrow> ([], r1)
                      | c # r \<Rightarrow> if c = 46 then (takeWhile isDigit r, dropWhile isDigit r)
                                 else ([], r1))
      in if ip = [] \<and> fp = [] then None
         else Some (of_nat (digits_value (ip @ fp)) / 10 ^ length fp * pow10 (ExponentPart r2)))"
  unfolding StrUnsignedDecimalLiteral_def assms by (simp add: Let_def)

lemma takeWhile_nil_iff: "takeWhile P xs = [] \<longleftrightarrow> (case xs of [] \<Rightarrow> True | x # _ \<Rightarrow> \<not> P x)"
  by (cases xs) simp_all

lemma StrUnsignedDecimalLiteral_None:
  "StrUnsignedDecimalLiteral u = None \<longleftrightarrow>
     \<not> (case u of
          [] \<Rightarrow> False
        | c # r \<Rightarrow> isDigit c \<or> (c = 46 \<and> (case r of [] \<Rightarrow> False | d # _ \<Rightarrow> isDigit d)))"
proof (cases u)
  case Nil
  then show ?thesis by (simp add: StrUnsignedDecimalLiteral_def)
next
  case (Cons c r)
  show ?thesis
  proof (cases "isDigit c")
    case True
    with Cons show ?thesis by (simp add: StrUnsignedDecimalLiteral_def Let_def split: prod.splits)
  next
    case False
    with Cons show ?thesis
      by (cases r) (auto simp: StrUnsignedDecimalLiteral_def Let_def isDigit_def)
  qed
qed

lemma parseFloat_NaN_iff: "parseFloat s = NaN \<longleftrightarrow> \<not> begins_number s"
proof -
  have nv: "Number_value q \<noteq> NaN" for q
    by (simp add: Number_value_def Let_def)
  show ?thesis
    using StrUnsignedDecimalLiteral_None [of "unsigned_part (dropWhile isWhiteSpace s)"]
    by (auto simp: parseFloat_unsigned begins_number_def Let_def nv split: option.splits)
qed

lemma digits_value_snoc: "digits_value (ds @ [d]) = 10 * digits_value ds + (d - 48)"
  by (simp add: digits_value_def)

lemma digits_value_append:
  "digits_value (xs @ ys) = digits_value xs * 10 ^ length ys + digits_value ys"
proof (induction ys rule: rev_induct)
  case Nil
  then show ?case by (simp add: digits_value_def)
next
  case (snoc y ys)
  have "digits_value (xs @ ys @ [y]) = 10 * digits_value (xs @ ys) + (y - 48)"
    using digits_value_snoc [of "xs @ ys" y] by simp
  then show ?case
    by (simp add: snoc.IH digits_value_snoc algebra_simps)
qed

lemma digit_not_space: "isDigit c \<Longrightarrow> \<not> isWhiteSpace c"
  by (auto simp: isDigit_def isWhiteSpace_def)

lemma all_digits_takeWhile: "list_all isDigit xs \<Longrightarrow> takeWhile isDigit xs = xs \<and> dropWhile isDigit xs = []"
  by (induction xs) auto

lemma pow10_0: "pow10 0 = 1"
  by (simp add: pow10_def)

lemma ExponentPart_Nil: "ExponentPart [] = 0"
  by (simp add: ExponentPart_def)

lemma StrUnsignedDecimalLiteral_decimal:
  assumes ip: "takeWhile isDigit u \<noteq> []"
    and rest: "case dropWhile isDigit u of [] \<Rightarrow> True | c # fp \<Rightarrow> c = 46 \<and> fp \<noteq> [] \<and> list_all isDigit fp"
  shows "StrUnsignedDecimalLiteral u =
           Some (of_nat (digits_value (takeWhile isDigit u))
                 + of_nat (digits_value (tl (dropWhile isDigit u)))
                   / 10 ^ length (tl (dropWhile isDigit u)))"
proof (cases "dropWhile isDigit u")
  case Nil
  show ?thesis
    using ip
    by (simp add: StrUnsignedDecimalLiteral_parts [OF refl Nil] Nil pow10_0 ExponentPart_Nil
        digits_value_def)
next
  case (Cons c fp)
  with rest have c: "c = 46" and fp: "list_all isDigit fp" and ne: "fp \<noteq> []" by simp_all
  have tw: "takeWhile isDigit fp = fp" "dropWhile isDigit fp = []"
    using all_digits_takeWhile [OF fp] by simp_all
  have "(of_nat (digits_value (takeWhile isDigit u @ fp)) :: rat) / 10 ^ length fp =
        of_nat (digits_value (takeWhile isDigit u)) + of_nat (digits_value fp) / 10 ^ length fp"
    by (simp add: digits_value_append add_divide_distrib)
  then show ?thesis
    using ne by (simp add: StrUnsignedDecimalLiteral_parts [OF refl Cons] Cons c tw pow10_0 ExponentPart_Nil)
qed

lemma parseFloat_decimal:
  assumes "decimal_string s"
  shows "parseFloat s = Number_value (decimal_value s)"
proof -
  let ?u = "unsigned_part s"
  from assms have ip: "takeWhile isDigit ?u \<noteq> []"
    and rest: "case dropWhile isDigit ?u of [] \<Rightarrow> True
               | c # fp \<Rightarrow> c = 46 \<and> fp \<noteq> [] \<and> list_all isDigit fp"
    by (simp_all add: decimal_string_def Let_def)
  from ip obtain d r where u: "?u = d # r" and d: "isDigit d"
    by (cases ?u) (auto split: if_splits)
  have s_ne: "s \<noteq> []" using u by (auto simp: unsigned_part_def)
  then obtain c cs where s: "s = c # cs" by (cases s) auto
  have "\<not> isWhiteSpace c"
  proof (cases "c = 45 \<or> c = 43")
    case True
    then show ?thesis by (auto simp: isWhiteSpace_def)
  next
    case False
    with s u have "c = d" by (simp add: unsigned_part_def)
    with d show ?thesis by (simp add: digit_not_space)
  qed
  with s have t: "dropWhile isWhiteSpace s = s" by simp
  have inf: "take 8 ?u \<noteq> lit ''Infinity''"
    using u d by (auto simp: lit_def isDigit_def)
  show ?thesis
    using inf StrUnsignedDecimalLiteral_decimal [OF ip rest]
    by (simp add: parseFloat_unsigned t Let_def decimal_value_def)
qed

lemma or_zero_Number_value: "or_zero (Number_value q) = Number_value q"
  by (simp add: or_zero_def Number_value_def Let_def)

lemma or_zero_NaN: "or_zero NaN = Num 0"
  by (simp add: or_zero_def)

lemma sent_price:
  "imageUrl (newProduct s) \<noteq> [] \<Longrightarrow>
   sent ''price'' (handleAddProduct ev server ps s) =
     [Some (JSON_number (or_zero (parseFloat (price (newProduct s)))))]"
  by (simp add: sent_handleAddProduct JSON_stringify_def member_def productData_def)

lemma sent_originalPrice:
  "imageUrl (newProduct s) \<noteq> [] \<Longrightarrow>
   sent ''originalPrice'' (handleAddProduct ev server ps s) =
     [Some (JSON_number (or_zero (parseFloat (originalPrice (newProduct s)))))]"
  by (simp add: sent_handleAddProduct JSON_stringify_def member_def productData_def)

lemma priced_image:
  "imageUrl (newProduct (example_state\<lparr>newProduct := example_draft\<lparr>price := p, originalPrice := q\<rparr>\<rparr>)) \<noteq> []"
  by (simp add: example_draft_def lit_def)

text \<open>
  C3, as amended. When the price text does not begin, after white space and an optional
  sign, with a digit, with a dot and a digit, or with \<open>Infinity\<close>, the price sent is 0.
  When it is a decimal string, the price sent is the rounding of the decimal it denotes:
  a double than which no double is nearer to the decimal, and \<open>null\<close> when the decimal is
  at or beyond the overflow threshold. The same holds of the original price.
\<close>

theorem submitted_price:
  assumes "imageUrl (newProduct s) \<noteq> []"
  shows "(\<not> begins_number (price (newProduct s)) \<longrightarrow>
            sent ''price'' (handleAddProduct ev server ps s) = [Some (JNumber 0)])
       \<and> (decimal_string (price (newProduct s)) \<longrightarrow>
            nearest_double (decimal_value (price (newProduct s)))
              (Number_value (decimal_value (price (newProduct s))))
          \<and> sent ''price'' (handleAddProduct ev server ps s) =
              [Some (JSON_number (Number_value (decimal_value (price (newProduct s)))))])
       \<and> (\<not> begins_number (originalPrice (newProduct s)) \<longrightarrow>
            sent ''originalPrice'' (handleAddProduct ev server ps s) = [Some (JNumber 0)])
       \<and> (decimal_string (originalPrice (newProduct s)) \<longrightarrow>
            nearest_double (decimal_value (originalPrice (newProduct s)))
              (Number_value (decimal_value (originalPrice (newProduct s))))
          \<and> sent ''originalPrice'' (handleAddProduct ev server ps s) =
              [Some (JSON_number (Number_value (decimal_value (originalPrice (newProduct s)))))])"
proof -
  have nan: "JSON_number (or_zero (parseFloat p)) = JNumber 0" if "\<not> begins_number p" for p
    using that parseFloat_NaN_iff [of p] by (simp add: or_zero_NaN JSON_number_def)
  have dec: "JSON_number (or_zero (parseFloat p)) = JSON_number (Number_value (decimal_value p))"
    if "decimal_string p" for p
    using that by (simp add: parseFloat_decimal or_zero_Number_value)
  show ?thesis
    using nan dec
    by (simp add: sent_price [OF assms] sent_originalPrice [OF assms] Number_value_nearest)
qed

theorem submitted_price_witness:
  "decimal_string (lit ''1500.00'') \<and> decimal_string (lit ''1800.5'')
 \<and> \<not> begins_number (lit ''free'') \<and> \<not> begins_number []
 \<and> sent ''price'' (handleAddProduct example_env accepting \<lparr>isOpen = True, product = None\<rparr>
      (example_state\<lparr>newProduct := example_draft\<lparr>price := lit ''1500.00'', originalPrice := lit ''1800.5''\<rparr>\<rparr>))
      = [Some (JNumber 1500)]
 \<and> sent ''originalPrice'' (handleAddProduct example_env accepting \<lparr>isOpen = True, product = None\<rparr>
      (example_state\<lparr>newProduct := example_draft\<lparr>price := lit ''1500.00'', originalPrice := lit ''1800.5''\<rparr>\<rparr>))
      = [Some (JNumber (3601 / 2))]
 \<and> sent ''price'' (handleAddProduct example_env accepting \<lparr>isOpen = True, product = None\<rparr>
      (example_state\<lparr>newProduct := example_draft\<lparr>price := lit ''free'', originalPrice := []\<rparr>\<rparr>))
      = [Some (JNumber 0)]
 \<and> sent ''originalPrice'' (handleAddProduct example_env accepting \<lparr>isOpen = True, product = None\<rparr>
      (example_state\<lparr>newProduct := example_draft\<lparr>price := lit ''free'', originalPrice := []\<rparr>\<rparr>))
      = [Some (JNumber 0)]"
proof -
  have d1: "decimal_string (lit ''1500.00'')"
    by (simp add: decimal_string_def unsigned_part_def isDigit_def lit_def)
  have d2: "decimal_string (lit ''1800.5'')"
    by (simp add: decimal_string_def unsigned_part_def isDigit_def lit_def)
  have n1: "\<not> begins_number (lit ''free'')"
    by (simp add: begins_number_def unsigned_part_def isDigit_def isWhiteSpace_def lit_def)
  have n2: "\<not> begins_number []"
    by (simp add: begins_number_def unsigned_part_def lit_def)
  have v1: "JSON_number (Number_value (decimal_value (lit ''1500.00''))) = JNumber 1500"
    by (simp add: decimal_value_def unsigned_part_def isDigit_def lit_def digits_value_def
        round_defs JSON_number_def)
  have v2: "JSON_number (Number_value (decimal_value (lit ''1800.5''))) = JNumber (3601 / 2)"
    by (simp add: decimal_value_def unsigned_part_def isDigit_def lit_def digits_value_def
        round_defs JSON_number_def)
  show ?thesis
    using d1 d2 n1 n2 v1 v2
      submitted_price
        [OF priced_image [where p = "lit ''1500.00''" and q = "lit ''1800.5''"],
          of example_env accepting "\<lparr>isOpen = True, product = None\<rparr>"]
      submitted_price
        [OF priced_image [where p = "lit ''free''" and q = "[]"],
          of example_env accepting "\<lparr>isOpen = True, product = None\<rparr>"]
    by simp
qed

text \<open>
  The claim C3 as it was stated fails in both halves. The price text \<open>12abc\<close> is not a
  decimal string, and the price sent is 12. The price text \<open>9007199254740993\<close> is a decimal
  string, and the price sent is 9007199254740992.
\<close>

theorem price_prefix_counterexample:
  "\<not> decimal_string (lit ''12abc'')
 \<and> sent ''price'' (handleAddProduct example_env accepting \<lparr>isOpen = True, product = None\<rparr>
      (example_state\<lparr>newProduct := example_draft\<lparr>price := lit ''12abc''\<rparr>\<rparr>))
      = [Some (JNumber 12)]
 \<and> JNumber 12 \<noteq> JNumber 0
 \<and> decimal_string (lit ''9007199254740993'')
 \<and> decimal_value (lit ''9007199254740993'') = 9007199254740993
 \<and> sent ''price'' (handleAddProduct example_env accepting \<lparr>isOpen = True, product = None\<rparr>
      (example_state\<lparr>newProduct := example_draft\<lparr>price := lit ''9007199254740993''\<rparr>\<rparr>))
      = [Some (JNumber 9007199254740992)]
 \<and> JNumber 9007199254740992 \<noteq> JNumber 9007199254740993"
proof -
  have nd: "\<not> decimal_string (lit ''12abc'')"
    by (simp add: decimal_string_def unsigned_part_def isDigit_def lit_def)
  have pf: "parseFloat (lit ''12abc'') = Num 12"
    by (simp add: parse_defs)
  have img: "imageUrl (newProduct (example_state\<lparr>newProduct := example_draft\<lparr>price := p\<rparr>\<rparr>)) \<noteq> []"
    for p
    by (simp add: example_draft_def lit_def)
  have ds: "decimal_string (lit ''9007199254740993'')"
    by (simp add: decimal_string_def unsigned_part_def isDigit_def lit_def)
  have dv: "decimal_value (lit ''9007199254740993'') = 9007199254740993"
    by (simp add: decimal_value_def unsigned_part_def isDigit_def lit_def digits_value_def)
  have nv: "Number_value 9007199254740993 = Num 9007199254740992"
    by (simp add: round_defs)
  have pb: "parseFloat (lit ''9007199254740993'') = Num 9007199254740992"
    using parseFloat_decimal [OF ds] by (simp add: dv nv)
  show ?thesis
    using nd ds dv by (simp add: sent_price [OF img] pf pb or_zero_def JSON_number_def)
qed

text \<open>
  C10. In edit mode, a product whose \<open>price\<close> is absent fills the price field of the draft
  with the text \<open>undefined\<close>, not with the empty string, and a submit of that draft sends
  the price 0. The same holds of \<open>originalPrice\<close>.
\<close>

theorem absent_price_becomes_undefined:
  assumes "product ps = Some p"
  shows "(price p = Undefined \<longrightarrow>
            price (newProduct (useEffect_product ev ps s)) = lit ''undefined''
          \<and> (imageUrl (newProduct (useEffect_product ev ps s)) \<noteq> [] \<longrightarrow>
               sent ''price'' (handleAddProduct ev server ps (useEffect_product ev ps s)) =
                 [Some (JNumber 0)]))
       \<and> (originalPrice p = Undefined \<longrightarrow>
            originalPrice (newProduct (useEffect_product ev ps s)) = lit ''undefined''
          \<and> (imageUrl (newProduct (useEffect_product ev ps s)) \<noteq> [] \<longrightarrow>
               sent ''originalPrice'' (handleAddProduct ev server ps (useEffect_product ev ps s)) =
                 [Some (JNumber 0)]))"
proof -
  let ?s = "useEffect_product ev ps s"
  have u: "or_default (Some (lit ''undefined'')) [] = lit ''undefined''"
    by (simp add: or_default_def lit_def)
  have p: "price (newProduct ?s) = lit ''undefined''" if "price p = Undefined"
    using assms that by (simp add: useEffect_product_def u)
  have op: "originalPrice (newProduct ?s) = lit ''undefined''" if "originalPrice p = Undefined"
    using assms that by (simp add: useEffect_product_def u)
  have z: "JSON_number (or_zero (parseFloat (lit ''undefined''))) = JNumber 0"
    by (simp add: parseFloat_undefined or_zero_def JSON_number_def)
  have sp: "sent ''price'' (handleAddProduct ev server ps ?s) = [Some (JNumber 0)]"
    if "price p = Undefined" "imageUrl (newProduct ?s) \<noteq> []"
    using that(2) p [OF that(1)] z
    by (simp add: sent_handleAddProduct JSON_stringify_def member_def productData_def)
  have sop: "sent ''originalPrice'' (handleAddProduct ev server ps ?s) = [Some (JNumber 0)]"
    if "originalPrice p = Undefined" "imageUrl (newProduct ?s) \<noteq> []"
    using that(2) op [OF that(1)] z
    by (simp add: sent_handleAddProduct JSON_stringify_def member_def productData_def)
  show ?thesis using p op sp sop by blast
qed

theorem absent_price_becomes_undefined_witness:
  "product \<lparr>isOpen = True, product = Some (example_product (NumV (Num 42)))\<rparr> =
     Some (example_product (NumV (Num 42)))
 \<and> price (example_product (NumV (Num 42))) = Undefined
 \<and> originalPrice (example_product (NumV (Num 42))) = Undefined
 \<and> price (newProduct (useEffect_product example_env
       \<lparr>isOpen = True, product = Some (example_product (NumV (Num 42)))\<rparr> example_state)) =
     lit ''undefined''
 \<and> imageUrl (newProduct (useEffect_product example_env
       \<lparr>isOpen = True, product = Some (example_product (NumV (Num 42)))\<rparr> example_state)) \<noteq> []
 \<and> sent ''price'' (handleAddProduct example_env accepting
       \<lparr>isOpen = True, product = Some (example_product (NumV (Num 42)))\<rparr>
       (useEffect_product example_env
         \<lparr>isOpen = True, product = Some (example_product (NumV (Num 42)))\<rparr> example_state)) =
     [Some (JNumber 0)]
 \<and> sent ''originalPrice'' (handleAddProduct example_env accepting
       \<lparr>isOpen = True, product = Some (example_product (NumV (Num 42)))\<rparr>
       (useEffect_product example_env
         \<lparr>isOpen = True, product = Some (example_product (NumV (Num 42)))\<rparr> example_state)) =
     [Some (JNumber 0)]"
proof -
  let ?ps = "\<lparr>isOpen = True, product = Some (example_product (NumV (Num 42)))\<rparr>"
  have p: "product ?ps = Some (example_product (NumV (Num 42)))"
    by simp
  have u: "price (example_product (NumV (Num 42))) = Undefined"
    "originalPrice (example_product (NumV (Num 42))) = Undefined"
    by (simp_all add: example_product_def)
  have i: "imageUrl (newProduct (useEffect_product example_env ?ps example_state)) \<noteq> []"
    by (simp add: useEffect_product_def example_product_def or_default_def lit_def)
  show ?thesis
    using p u i
      absent_price_becomes_undefined [OF p, of example_env example_state accepting]
    by simp
qed

section \<open>A save that the server refuses\<close>

lemma error_toasts_handleAddProduct:
  "imageUrl (newProduct s) \<noteq> [] \<Longrightarrow>
   server (save_request ev ps (newProduct s)) = Replied res \<Longrightarrow> \<not> success res \<Longrightarrow>
   error_toasts (handleAddProduct ev server ps s) =
     [or_default (message res)
        (lit ''Failed to '' @ (if isEditing ps then lit ''update'' else lit ''add'') @ lit '' product'')]
   \<and> fst (handleAddProduct ev server ps s) = s\<lparr>isSubmitting := False\<rparr>"
  by (simp add: handleAddProduct_def error_toasts_def Let_def)

text \<open>
  C6, as amended. When the server answers a save with \<open>success: false\<close> and a message that
  is not empty, one error notification appears and shows that message. When the answer
  has no message, or an empty one, the notification shows the generic text. In each case
  the draft is as it was before the submit.
\<close>

theorem refused_save_notifies:
  assumes "imageUrl (newProduct s) \<noteq> []"
    and "server (save_request ev ps (newProduct s)) = Replied res"
    and "\<not> success res"
  shows "(\<forall>m. message res = Some m \<and> m \<noteq> [] \<longrightarrow>
            error_toasts (handleAddProduct ev server ps s) = [m])
       \<and> (message res = None \<or> message res = Some [] \<longrightarrow>
            error_toasts (handleAddProduct ev server ps s) =
              [lit ''Failed to '' @ (if isEditing ps then lit ''update'' else lit ''add'')
               @ lit '' product''])
       \<and> newProduct (fst (handleAddProduct ev server ps s)) = newProduct s"
  using assms error_toasts_handleAddProduct [of s server ev ps res]
  by (auto simp: or_default_def)


theorem refused_save_notifies_witness:
  "imageUrl (newProduct example_state) \<noteq> []
 \<and> refusing (Some (lit ''Name already taken''))
      (save_request example_env \<lparr>isOpen = True, product = None\<rparr> (newProduct example_state)) =
      Replied \<lparr>success = False, message = Some (lit ''Name already taken'')\<rparr>
 \<and> error_toasts (handleAddProduct example_env (refusing (Some (lit ''Name already taken'')))
      \<lparr>isOpen = True, product = None\<rparr> example_state) = [lit ''Name already taken'']
 \<and> newProduct (fst (handleAddProduct example_env (refusing (Some (lit ''Name already taken'')))
      \<lparr>isOpen = True, product = None\<rparr> example_state)) = newProduct example_state"
proof -
  have r: "refusing (Some (lit ''Name already taken''))
      (save_request example_env \<lparr>isOpen = True, product = None\<rparr> (newProduct example_state)) =
      Replied \<lparr>success = False, message = Some (lit ''Name already taken'')\<rparr>"
    by (simp add: refusing_def)
  have f: "\<not> success \<lparr>success = False, message = Some (lit ''Name already taken'')\<rparr>"
    by simp
  show ?thesis
    using example_image r f
      refused_save_notifies [of example_state "refusing (Some (lit ''Name already taken''))"
        example_env "\<lparr>isOpen = True, product = None\<rparr>"
        "\<lparr>success = False, message = Some (lit ''Name already taken'')\<rparr>"]
    by (simp add: lit_def)
qed

text \<open>
  The claim C6 as it was stated fails for the answer \<open>{success: false, message: ""}\<close>: the
  notification does not show the empty message of the server but the generic text.
\<close>

theorem empty_message_counterexample:
  "error_toasts (handleAddProduct example_env (refusing (Some []))
      \<lparr>isOpen = True, product = None\<rparr> example_state) = [lit ''Failed to add product'']
 \<and> error_toasts (handleAddProduct example_env (refusing (Some []))
      \<lparr>isOpen = True, product = None\<rparr> example_state) \<noteq> [[]]"
proof -
  have "error_toasts (handleAddProduct example_env (refusing (Some []))
      \<lparr>isOpen = True, product = None\<rparr> example_state) = [lit ''Failed to add product'']"
    using example_image
      error_toasts_handleAddProduct [of example_state "refusing (Some [])" example_env
        "\<lparr>isOpen = True, product = None\<rparr>" "\<lparr>success = False, message = Some []\<rparr>"]
    by (simp add: refusing_def or_default_def isEditing_def lit_def)
  then show ?thesis by (simp add: lit_def)
qed


section \<open>The debounced search\<close>

lemma elapse_keeps:
  "searchQuery (elapse t s) = searchQuery s"
  "pagination (elapse t s) = pagination s"
  by (simp_all add: elapse_def fetchNewsletters_def split: option.splits)

lemma elapse_not_due:
  "delayDebounceFn s = Some tm \<Longrightarrow> t < due tm \<Longrightarrow>
   fetched (elapse t s) = fetched s \<and> delayDebounceFn (elapse t s) = Some tm"
  by (simp add: elapse_def)

lemma elapse_due:
  "delayDebounceFn s = Some tm \<Longrightarrow> due tm \<le> t \<Longrightarrow>
   fetched (elapse t s) =
     fetched s @ [\<lparr>page = 1, limit = itemsPerPage (captured_pagination tm),
                   search = captured_searchQuery tm\<rparr>]"
  by (simp add: elapse_def fetchNewsletters_def)

lemma resume_keeps:
  "searchQuery (fetchNewsletters_resume outcome s) = searchQuery s"
  "fetched (fetchNewsletters_resume outcome s) = fetched s"
  "delayDebounceFn (fetchNewsletters_resume outcome s) = delayDebounceFn s"
  by (simp_all add: fetchNewsletters_resume_def split: list_outcome.splits)

lemma setSearchQuery_state:
  assumes "v \<noteq> searchQuery s"
  shows "searchQuery (setSearchQuery t v s) = v"
    and "pagination (setSearchQuery t v s) = pagination s"
    and "fetched (setSearchQuery t v s) = fetched (elapse t s)"
    and "delayDebounceFn (setSearchQuery t v s) =
           Some \<lparr>due = t + 500, captured_searchQuery = v, captured_pagination = pagination s\<rparr>"
  using assms
  by (simp_all add: setSearchQuery_def useEffect_searchQuery_def Let_def elapse_keeps elapse_def
      fetchNewsletters_def split: option.splits)

lemma run_within_quiet:
  assumes "delayDebounceFn s = Some tm"
    and "quiet (due tm) es"
    and "changing (searchQuery s) (typed es)"
    and "es \<noteq> []"
    and "last es = (tn, Keystroke vn)"
  shows "fetched (run es s) = fetched s
       \<and> searchQuery (run es s) = vn
       \<and> delayDebounceFn (run es s) =
           Some \<lparr>due = tn + 500, captured_searchQuery = vn,
                 captured_pagination = pagination (run es s)\<rparr>"
  using assms
proof (induction es arbitrary: s tm)
  case Nil
  then show ?case by simp
next
  case (Cons e es)
  obtain t ev where e: "e = (t, ev)" by (cases e)
  show ?case
  proof (cases ev)
    case (Keystroke v)
    let ?s = "setSearchQuery t v s"
    let ?tm = "\<lparr>due = t + 500, captured_searchQuery = v, captured_pagination = pagination s\<rparr>"
    have t: "t < due tm" and ch: "v \<noteq> searchQuery s"
      using Cons.prems(2,3) e Keystroke by simp_all
    have f: "fetched ?s = fetched s"
      using Cons.prems(1) t elapse_not_due [of s tm t] by (simp add: setSearchQuery_state [OF ch])
    have d: "delayDebounceFn ?s = Some ?tm"
      by (simp add: setSearchQuery_state [OF ch])
    have sp: "searchQuery ?s = v" "pagination ?s = pagination s"
      by (simp_all add: setSearchQuery_state [OF ch])
    show ?thesis
    proof (cases "es = []")
      case True
      with Cons.prems(5) e Keystroke have "t = tn" "v = vn" by simp_all
      with True e Keystroke f d sp show ?thesis by simp
    next
      case False
      have q: "quiet (due ?tm) es" and c: "changing (searchQuery ?s) (typed es)"
        and l: "last es = (tn, Keystroke vn)"
        using Cons.prems(2,3,5) e Keystroke False by (simp_all add: setSearchQuery_state [OF ch])
      from Cons.IH [OF d q c False l] f e Keystroke show ?thesis by simp
    qed
  next
    case (Answer outcome)
    let ?s = "fetchNewsletters_resume outcome (elapse t s)"
    have t: "t < due tm" using Cons.prems(2) e Answer by simp
    have ne: "es \<noteq> []" using Cons.prems(5) e Answer by (cases es) auto
    have f: "fetched ?s = fetched s" and d: "delayDebounceFn ?s = Some tm"
      using Cons.prems(1) t elapse_not_due [of s tm t] by (simp_all add: resume_keeps)
    have q: "quiet (due tm) es" and c: "changing (searchQuery ?s) (typed es)"
      and l: "last es = (tn, Keystroke vn)"
      using Cons.prems(2,3,5) e Answer ne by (simp_all add: resume_keeps elapse_keeps)
    from Cons.IH [OF d q c ne l] f e Answer show ?thesis by simp
  qed
qed

text \<open>
  C9. A burst of typing in the search box: a first keystroke, then keystrokes that each
  come less than 500 ms after the one before, every one changing the text, with answers
  to earlier requests arriving in between. Once 500 ms have passed since the last
  keystroke, exactly one fetch has been issued since the first: for page 1, with the text
  after the last keystroke as the search parameter, and with the page size held at the
  last keystroke as the limit. Until then none has been issued since the first keystroke.
\<close>

theorem debounced_search:
  assumes "quiet (t1 + 500) es"
    and "changing (searchQuery s) (typed ((t1, Keystroke v1) # es))"
    and "last ((t1, Keystroke v1) # es) = (tn, Keystroke vn)"
  shows "(tn + 500 \<le> T \<longrightarrow>
            fetched (elapse T (run ((t1, Keystroke v1) # es) s)) =
              fetched (elapse t1 s)
              @ [\<lparr>page = 1,
                   limit = itemsPerPage (pagination (run ((t1, Keystroke v1) # es) s)),
                   search = vn\<rparr>])
       \<and> (T < tn + 500 \<longrightarrow>
            fetched (elapse T (run ((t1, Keystroke v1) # es) s)) = fetched (elapse t1 s))"
proof -
  let ?s1 = "setSearchQuery t1 v1 s"
  let ?s = "run ((t1, Keystroke v1) # es) s"
  let ?final = "\<lparr>due = tn + 500, captured_searchQuery = vn, captured_pagination = pagination ?s\<rparr>"
  have ch: "v1 \<noteq> searchQuery s"
    using assms(2) by simp
  have d: "delayDebounceFn ?s1 =
      Some \<lparr>due = t1 + 500, captured_searchQuery = v1, captured_pagination = pagination s\<rparr>"
    by (simp add: setSearchQuery_state [OF ch])
  have sp: "fetched ?s1 = fetched (elapse t1 s)" "pagination ?s1 = pagination s"
    by (simp_all add: setSearchQuery_state [OF ch])
  have after: "fetched ?s = fetched (elapse t1 s) \<and> delayDebounceFn ?s = Some ?final"
  proof (cases "es = []")
    case True
    with assms(3) d sp show ?thesis by simp
  next
    case False
    have q: "quiet (due \<lparr>due = t1 + 500, captured_searchQuery = v1,
        captured_pagination = pagination s\<rparr>) es"
      using assms(1) by simp
    have c: "changing (searchQuery ?s1) (typed es)"
      using assms(2) by (simp add: setSearchQuery_state [OF ch])
    have l: "last es = (tn, Keystroke vn)"
      using assms(3) False by simp
    from run_within_quiet [OF d q c False l] show ?thesis
      by (simp add: setSearchQuery_state [OF ch])
  qed
  show ?thesis
    using after elapse_due [of ?s ?final T] elapse_not_due [of ?s ?final T]
    by simp
qed

theorem debounced_search_witness:
  "quiet (600 + 500)
     [(650, Answer example_answer), (700, Keystroke (lit ''ab'')), (800, Keystroke (lit ''abc''))]
 \<and> changing (searchQuery (mounted 0))
     (typed [(600, Keystroke (lit ''a'')), (650, Answer example_answer),
             (700, Keystroke (lit ''ab'')), (800, Keystroke (lit ''abc''))])
 \<and> last [(600, Keystroke (lit ''a'')), (650, Answer example_answer),
          (700, Keystroke (lit ''ab'')), (800, Keystroke (lit ''abc''))] =
     (800, Keystroke (lit ''abc''))
 \<and> fetched (elapse 600 (mounted 0)) = [\<lparr>page = 1, limit = 10, search = []\<rparr>]
 \<and> fetched (elapse 1300
      (run [(600, Keystroke (lit ''a'')), (650, Answer example_answer),
            (700, Keystroke (lit ''ab'')), (800, Keystroke (lit ''abc''))] (mounted 0))) =
     [\<lparr>page = 1, limit = 10, search = []\<rparr>, \<lparr>page = 1, limit = 25, search = lit ''abc''\<rparr>]
 \<and> fetched (elapse 1200
      (run [(600, Keystroke (lit ''a'')), (650, Answer example_answer),
            (700, Keystroke (lit ''ab'')), (800, Keystroke (lit ''abc''))] (mounted 0))) =
     [\<lparr>page = 1, limit = 10, search = []\<rparr>]"
proof -
  let ?es = "[(650, Answer example_answer), (700, Keystroke (lit ''ab'')),
              (800, Keystroke (lit ''abc''))]"
  have m: "fetched (elapse 600 (mounted 0)) = [\<lparr>page = 1, limit = 10, search = []\<rparr>]"
    "searchQuery (mounted 0) = []"
    by (simp_all add: mounted_def useEffect_searchQuery_def elapse_def fetchNewsletters_def)
  have q: "quiet (600 + 500) ?es"
    by simp
  have c: "changing (searchQuery (mounted 0)) (typed ((600, Keystroke (lit ''a'')) # ?es))"
    by (simp add: m lit_def)
  have l: "last ((600, Keystroke (lit ''a'')) # ?es) = (800, Keystroke (lit ''abc''))"
    by simp
  have p: "itemsPerPage (pagination (run ((600, Keystroke (lit ''a'')) # ?es) (mounted 0))) = 25"
    by (simp add: mounted_def useEffect_searchQuery_def setSearchQuery_def elapse_def
        fetchNewsletters_def fetchNewsletters_resume_def example_answer_def Let_def lit_def)
  show ?thesis
    using q c l p debounced_search [OF q c l, of 1300] debounced_search [OF q c l, of 1200]
    by (simp add: m)
qed

end
